theory Spec2Isabelle
  imports Main "HOL-Library.Multiset"
begin

section \<open>Data model of \<^verbatim>\<open>src/import.ts\<close>\<close>

text \<open>
  Strings are lists of 8-bit characters; the model covers the JavaScript strings whose
  code units are below 256. \<^verbatim>\<open>Lang\<close> comes from a module that is not part of the
  sources at hand; it only travels from the options to \<^verbatim>\<open>getBoundMessage\<close>, so a
  language is its code.
\<close>

type_synonym Lang = string

record Option =
  lang :: Lang
  proxy :: string
  guestSpaceId :: int
  destDir :: string

record ImportCustomizeManifest =
  app :: string

text \<open>\<^verbatim>\<open>type CustomizeFile = UploadedFile | CDNFile\<close>, discriminated by \<^verbatim>\<open>type\<close>:
  \<^verbatim>\<open>{type: "FILE", file: {fileKey, name}}\<close> or \<^verbatim>\<open>{type: "URL", url}\<close>.\<close>

datatype CustomizeFile =
    UploadedFile string string
  | CDNFile string

text \<open>The string union \<^verbatim>\<open>"ALL" | "ADMIN" | "NONE"\<close>.\<close>

datatype Scope = Scope_ALL | Scope_ADMIN | Scope_NONE

fun scope_string :: "Scope \<Rightarrow> string" where
  "scope_string Scope_ALL = ''ALL''"
| "scope_string Scope_ADMIN = ''ADMIN''"
| "scope_string Scope_NONE = ''NONE''"

text \<open>\<^verbatim>\<open>GetAppCustomizeResp\<close>; \<^verbatim>\<open>desktop\<close> and \<^verbatim>\<open>mobile\<close> are read as
  \<^verbatim>\<open>resp.desktop.js\<close>, \<^verbatim>\<open>resp.desktop.css\<close> and \<^verbatim>\<open>resp.mobile.js\<close>.\<close>

record GetAppCustomizeResp =
  scope :: Scope
  desktop_js :: "CustomizeFile list"
  desktop_css :: "CustomizeFile list"
  mobile_js :: "CustomizeFile list"

text \<open>The object literal \<^verbatim>\<open>customizeJson\<close> has the keys \<^verbatim>\<open>app\<close>, \<^verbatim>\<open>scope\<close>,
  \<^verbatim>\<open>desktop: {js, css}\<close> and \<^verbatim>\<open>mobile: {js}\<close>, in this order.\<close>

record CustomizeManifest = ImportCustomizeManifest +
  manifest_scope :: Scope
  manifest_desktop_js :: "string list"
  manifest_desktop_css :: "string list"
  manifest_mobile_js :: "string list"

text \<open>The status object \<^verbatim>\<open>{ retryCount: number }\<close>, the count an integer. Status
  objects live in a heap (a list; a reference is an index below its length, as the
  parameter type admits no missing object), so that a write to the caller's object would
  show.\<close>

record status =
  retryCount :: int

subsection \<open>Errors, promises and calls\<close>

text \<open>
  A thrown value is either an instance of \<^verbatim>\<open>AuthenticationError\<close> or some other error,
  here \<^verbatim>\<open>new Error(message)\<close>. A promise is known by how it settles, if it ever does. A
  call of a method that returns a promise either throws before it returns (synchronously)
  or returns the promise.
\<close>

datatype jserror = AuthenticationError | Error string

datatype 'a promise = Fulfilled 'a | Rejected jserror | Pending

datatype 'a call = Throws jserror | Returns "'a promise"

subsection \<open>The environment\<close>

text \<open>\<^verbatim>\<open>sep\<close> of Node's \<^verbatim>\<open>path\<close> module is the slash on POSIX and the backslash on
  Windows.\<close>

datatype platform = Posix | Win32

fun sep_char :: "platform \<Rightarrow> char" where
  "sep_char Posix = CHR ''/''"
| "sep_char Win32 = CHR 0x5C"

text \<open>
  What the code does not define itself is a parameter: the platform, the constant
  \<^verbatim>\<open>Constans.MAX_RETRY_COUNT\<close>, the message catalogue \<^verbatim>\<open>getBoundMessage\<close>, the two
  methods of the \<^verbatim>\<open>KintoneApiClient\<close> (each answer may depend on how many calls of
  the method came before, which is how a transient failure is told apart from a
  persistent one), whether the operating system refuses to create a directory or to
  write a file, and which file or directory a path names: \<open>realpath env path\<close> is the
  identity of what the path names, the same for two paths that name one file
  (\<^verbatim>\<open>a.js\<close> and \<^verbatim>\<open>./a.js\<close>, two spellings on a volume that ignores case, a link
  and its target).
\<close>

record env =
  platform :: platform
  MAX_RETRY_COUNT :: int
  getBoundMessage :: "Lang \<Rightarrow> string \<Rightarrow> string"
  getAppCustomize :: "nat \<Rightarrow> string \<Rightarrow> GetAppCustomizeResp call"
  downloadFile :: "nat \<Rightarrow> string \<Rightarrow> string call"
  mkdirp_error :: "string \<Rightarrow> jserror option"
  writeFile_error :: "string \<Rightarrow> jserror option"
  realpath :: "string \<Rightarrow> string"

definition sep :: "env \<Rightarrow> string" where
  "sep env = [sep_char (platform env)]"

subsection \<open>The world\<close>

text \<open>Calls of the client, \<^verbatim>\<open>wait(ms)\<close> and \<^verbatim>\<open>console.log(text)\<close> are recorded in
  the order in which they happen.\<close>

datatype event = Fetch string | Download string | Wait nat | Log string

text \<open>
  An asynchronous operation that has been started and not yet completed:
  \<^verbatim>\<open>fs.writeFile(path, data, callback)\<close>, or
  \<^verbatim>\<open>promise.then(resp => fs.writeFile(path, resp, callback))\<close> for the promise that
  \<^verbatim>\<open>downloadFile\<close> returned.
\<close>

datatype task = WriteFile string string | ThenWriteFile "string promise" string

record world =
  dirs :: "string set"
  files :: "string \<rightharpoonup> string"
  heap :: "status list"
  trace :: "event list"
  pending :: "task list"
  uncaught :: "jserror list"
  unhandled :: "jserror list"

fun is_Fetch :: "event \<Rightarrow> bool" where
  "is_Fetch (Fetch a) = True"
| "is_Fetch e = False"

fun is_Download :: "event \<Rightarrow> bool" where
  "is_Download (Download k) = True"
| "is_Download e = False"

definition fetch_count :: "world \<Rightarrow> nat" where
  "fetch_count w = length (filter is_Fetch (trace w))"

definition download_count :: "world \<Rightarrow> nat" where
  "download_count w = length (filter is_Download (trace w))"

definition emit :: "event \<Rightarrow> world \<Rightarrow> world" where
  "emit e w = w\<lparr>trace := trace w @ [e]\<rparr>"

section \<open>Library operations\<close>

subsection \<open>\<^verbatim>\<open>JSON.stringify(value, null, space)\<close>\<close>

text \<open>The values that occur: strings, arrays and objects with string keys, none of
  them an array index, so that the keys are serialised in insertion order.\<close>

datatype json = JString string | JArray "json list" | JObject "(string \<times> json) list"

definition hex_digit :: "nat \<Rightarrow> char" where
  "hex_digit n = ''0123456789abcdef'' ! (n mod 16)"

definition QuoteJSONChar :: "char \<Rightarrow> string" where
  "QuoteJSONChar c =
     (if c = CHR 0x08 then [CHR 0x5C, CHR ''b'']
      else if c = CHR 0x09 then [CHR 0x5C, CHR ''t'']
      else if c = CHR 0x0A then [CHR 0x5C, CHR ''n'']
      else if c = CHR 0x0C then [CHR 0x5C, CHR ''f'']
      else if c = CHR 0x0D then [CHR 0x5C, CHR ''r'']
      else if c = CHR 0x22 then [CHR 0x5C, CHR 0x22]
      else if c = CHR 0x5C then [CHR 0x5C, CHR 0x5C]
      else if (of_char c :: nat) < 32
        then [CHR 0x5C, CHR ''u'', CHR ''0'', CHR ''0'',
              hex_digit (of_char c div 16), hex_digit (of_char c)]
      else [c])"

definition QuoteJSONString :: "string \<Rightarrow> string" where
  "QuoteJSONString s = [CHR 0x22] @ concat (map QuoteJSONChar s) @ [CHR 0x22]"

fun join :: "string \<Rightarrow> string list \<Rightarrow> string" where
  "join s [] = []"
| "join s [x] = x"
| "join s (x # y # ys) = x @ s @ join s (y # ys)"

fun SerializeJSON :: "string \<Rightarrow> string \<Rightarrow> json \<Rightarrow> string" where
  "SerializeJSON gap indent (JString s) = QuoteJSONString s"
| "SerializeJSON gap indent (JArray xs) =
     (let stepback = indent;
          partial = map (SerializeJSON gap (indent @ gap)) xs
      in if partial = [] then ''[]''
         else if gap = [] then ''['' @ join '','' partial @ '']''
         else ''['' @ [CHR 0x0A] @ (indent @ gap)
              @ join ('','' @ [CHR 0x0A] @ (indent @ gap)) partial
              @ [CHR 0x0A] @ stepback @ '']'')"
| "SerializeJSON gap indent (JObject kvs) =
     (let stepback = indent;
          partial = map (\<lambda>kv. QuoteJSONString (fst kv) @ '':''
                                 @ (if gap = [] then [] else '' '')
                                 @ SerializeJSON gap (indent @ gap) (snd kv)) kvs
      in if partial = [] then ''{}''
         else if gap = [] then ''{'' @ join '','' partial @ ''}''
         else ''{'' @ [CHR 0x0A] @ (indent @ gap)
              @ join ('','' @ [CHR 0x0A] @ (indent @ gap)) partial
              @ [CHR 0x0A] @ stepback @ ''}'')"

definition JSON_stringify :: "json \<Rightarrow> nat \<Rightarrow> string" where
  "JSON_stringify v space = SerializeJSON (replicate (min 10 space) CHR '' '') [] v"

definition manifest_json :: "CustomizeManifest \<Rightarrow> json" where
  "manifest_json m =
     JObject
       [(''app'', JString (app m)),
        (''scope'', JString (scope_string (manifest_scope m))),
        (''desktop'', JObject [(''js'', JArray (map JString (manifest_desktop_js m))),
                               (''css'', JArray (map JString (manifest_desktop_css m)))]),
        (''mobile'', JObject [(''js'', JArray (map JString (manifest_mobile_js m)))])]"

subsection \<open>The file system\<close>

text \<open>
  The world holds the directories and the files by their identities, not by the paths
  that were used: \<open>dirs w\<close> is the set of the directories that exist and \<open>files w\<close>
  gives the content of each file that exists. \<^verbatim>\<open>fs.existsSync(path)\<close> is true when the
  path names a directory or a file. \<^verbatim>\<open>mkdirp.sync(path)\<close> throws when the operating
  system refuses, and otherwise leaves the directory and every directory above it in
  place: those named by the proper prefixes of the path that end before a separator.
\<close>

definition existsSync :: "env \<Rightarrow> world \<Rightarrow> string \<Rightarrow> bool" where
  "existsSync env w path =
     (realpath env path \<in> dirs w \<or> files w (realpath env path) \<noteq> None)"

definition path_ancestors :: "char \<Rightarrow> string \<Rightarrow> string list" where
  "path_ancestors c path =
     map (\<lambda>i. take i path) (filter (\<lambda>i. path ! i = c) [1..<length path])"

definition mkdirp_sync :: "env \<Rightarrow> string \<Rightarrow> world \<Rightarrow> (jserror + unit) \<times> world" where
  "mkdirp_sync env path w =
     (case mkdirp_error env path of
        Some e \<Rightarrow> (Inl e, w)
      | None \<Rightarrow>
          (Inr (),
           w\<lparr>dirs := dirs w
                        \<union> realpath env `
                            (set (path_ancestors (sep_char (platform env)) path) \<union> {path})\<rparr>))"

text \<open>\<^verbatim>\<open>fs.writeFile\<close> returns at once; the write is outstanding.\<close>

definition fs_writeFile :: "string \<Rightarrow> string \<Rightarrow> world \<Rightarrow> world" where
  "fs_writeFile path data w = w\<lparr>pending := pending w @ [WriteFile path data]\<rparr>"

text \<open>
  When the write completes, the file that the path names holds the data, whatever it
  held before and under whatever path it was written before (the
  default flag of \<^verbatim>\<open>fs.writeFile\<close> truncates). When it fails, the callback
  \<^verbatim>\<open>err => { if (err) { throw err; } }\<close> throws outside any promise and any
  \<^verbatim>\<open>try\<close>: an uncaught exception of the process.
\<close>

definition writeFile_done :: "env \<Rightarrow> string \<Rightarrow> string \<Rightarrow> world \<Rightarrow> world" where
  "writeFile_done env path data w =
     (case writeFile_error env path of
        None \<Rightarrow> w\<lparr>files := (files w)(realpath env path \<mapsto> data)\<rparr>
      | Some err \<Rightarrow> w\<lparr>uncaught := uncaught w @ [err]\<rparr>)"

text \<open>
  Completion of one outstanding operation. A download that is rejected has no rejection
  handler: an unhandled rejection, and no write. One that never settles does nothing.
\<close>

fun complete :: "env \<Rightarrow> task \<Rightarrow> world \<Rightarrow> world" where
  "complete env (WriteFile path data) w = writeFile_done env path data w"
| "complete env (ThenWriteFile (Fulfilled data) path) w = writeFile_done env path data w"
| "complete env (ThenWriteFile (Rejected e) path) w = w\<lparr>unhandled := unhandled w @ [e]\<rparr>"
| "complete env (ThenWriteFile Pending path) w = w"

text \<open>
  The event loop completes the outstanding operations in some order: nothing in the
  code orders them, so the order is an input, a rearrangement of \<open>pending w\<close>.
\<close>

definition event_loop :: "env \<Rightarrow> task list \<Rightarrow> world \<Rightarrow> world" where
  "event_loop env order w = fold (complete env) order (w\<lparr>pending := []\<rparr>)"

section \<open>The functions of \<^verbatim>\<open>src/import.ts\<close>\<close>

subsection \<open>\<^verbatim>\<open>exportAsManifestFile\<close>\<close>

definition toNameOrUrl :: "env \<Rightarrow> string \<Rightarrow> CustomizeFile \<Rightarrow> string" where
  "toNameOrUrl env dest_dir f =
     (case f of
        UploadedFile fileKey name \<Rightarrow> dest_dir @ sep env @ name
      | CDNFile url \<Rightarrow> url)"

definition customizeJson ::
  "env \<Rightarrow> string \<Rightarrow> string \<Rightarrow> GetAppCustomizeResp \<Rightarrow> CustomizeManifest" where
  "customizeJson env appId destRootDir resp =
     \<lparr>app = appId,
      manifest_scope = scope resp,
      manifest_desktop_js =
        map (toNameOrUrl env (destRootDir @ sep env @ ''desktop'' @ sep env @ ''js''))
          (desktop_js resp),
      manifest_desktop_css =
        map (toNameOrUrl env (destRootDir @ sep env @ ''desktop'' @ sep env @ ''css''))
          (desktop_css resp),
      manifest_mobile_js =
        map (toNameOrUrl env (destRootDir @ sep env @ ''mobile'' @ sep env @ ''js''))
          (mobile_js resp)\<rparr>"

definition exportAsManifestFile ::
  "env \<Rightarrow> string \<Rightarrow> string \<Rightarrow> GetAppCustomizeResp \<Rightarrow> world
     \<Rightarrow> (jserror + GetAppCustomizeResp) \<times> world" where
  "exportAsManifestFile env appId destRootDir resp w =
     (case (if \<not> existsSync env w destRootDir then mkdirp_sync env destRootDir w
            else (Inr (), w)) of
        (Inl e, w1) \<Rightarrow> (Inl e, w1)
      | (Inr u, w1) \<Rightarrow>
          (Inr resp,
           fs_writeFile (destRootDir @ sep env @ ''customize-manifest.json'')
             (JSON_stringify (manifest_json (customizeJson env appId destRootDir resp)) 4)
             w1))"

subsection \<open>\<^verbatim>\<open>downloadAndWriteFile\<close> and \<^verbatim>\<open>downloadCustomizeFiles\<close>\<close>

text \<open>Two statements in sequence: when the first throws, the second does not run.\<close>

definition and_then ::
  "(world \<Rightarrow> (jserror + unit) \<times> world) \<Rightarrow> (world \<Rightarrow> (jserror + unit) \<times> world)
     \<Rightarrow> world \<Rightarrow> (jserror + unit) \<times> world" where
  "and_then f g w =
     (case f w of
        (Inl e, w1) \<Rightarrow> (Inl e, w1)
      | (Inr u, w1) \<Rightarrow> g w1)"

text \<open>\<^verbatim>\<open>Array.prototype.forEach\<close> with a callback that may throw: the first throw ends
  the loop.\<close>

fun forEach ::
  "('a \<Rightarrow> world \<Rightarrow> (jserror + unit) \<times> world) \<Rightarrow> 'a list \<Rightarrow> world
     \<Rightarrow> (jserror + unit) \<times> world" where
  "forEach f [] w = (Inr (), w)"
| "forEach f (x # xs) w = and_then (f x) (forEach f xs) w"

definition downloadAndWriteFile ::
  "env \<Rightarrow> string \<Rightarrow> CustomizeFile \<Rightarrow> world \<Rightarrow> (jserror + unit) \<times> world" where
  "downloadAndWriteFile env dest_dir f w =
     (case f of
        CDNFile url \<Rightarrow> (Inr (), w)
      | UploadedFile fileKey name \<Rightarrow>
          (case downloadFile env (download_count w) fileKey of
             Throws e \<Rightarrow> (Inl e, emit (Download fileKey) w)
           | Returns p \<Rightarrow>
               (Inr (),
                (emit (Download fileKey) w)
                  \<lparr>pending := pending w @ [ThenWriteFile p (dest_dir @ sep env @ name)]\<rparr>)))"

definition downloadCustomizeFiles ::
  "env \<Rightarrow> string \<Rightarrow> string \<Rightarrow> GetAppCustomizeResp \<Rightarrow> world
     \<Rightarrow> (jserror + unit) \<times> world" where
  "downloadCustomizeFiles env appId dest_dir resp =
     and_then
       (forEach (mkdirp_sync env)
          [dest_dir @ sep env @ ''desktop'' @ sep env @ ''js'' @ sep env,
           dest_dir @ sep env @ ''desktop'' @ sep env @ ''css'' @ sep env,
           dest_dir @ sep env @ ''mobile'' @ sep env @ ''js'' @ sep env])
       (and_then
          (forEach
             (downloadAndWriteFile env (dest_dir @ sep env @ ''desktop'' @ sep env @ ''js''))
             (desktop_js resp))
          (and_then
             (forEach
                (downloadAndWriteFile env (dest_dir @ sep env @ ''desktop'' @ sep env @ ''css''))
                (desktop_css resp))
             (forEach
                (downloadAndWriteFile env (dest_dir @ sep env @ ''mobile'' @ sep env @ ''js''))
                (mobile_js resp))))"

subsection \<open>\<^verbatim>\<open>importCustomizeSetting\<close>\<close>

text \<open>
  \<^verbatim>\<open>promise.then(callback)\<close>: the callback runs on the value of a fulfilled promise;
  what it returns fulfils the new promise and what it throws rejects it. A rejected or
  pending promise passes through.
\<close>

definition then_promise ::
  "'a promise \<times> world \<Rightarrow> ('a \<Rightarrow> world \<Rightarrow> (jserror + 'b) \<times> world) \<Rightarrow> 'b promise \<times> world" where
  "then_promise pw callback =
     (case pw of
        (Fulfilled v, w) \<Rightarrow>
          (case callback v w of
             (Inl e, w1) \<Rightarrow> (Rejected e, w1)
           | (Inr r, w1) \<Rightarrow> (Fulfilled r, w1))
      | (Rejected e, w) \<Rightarrow> (Rejected e, w)
      | (Pending, w) \<Rightarrow> (Pending, w))"

text \<open>\<^verbatim>\<open>promise.catch(e => { throw e; })\<close>: a rejection is rejected again with the same
  error.\<close>

definition catch_rethrow :: "'a promise \<times> world \<Rightarrow> 'a promise \<times> world" where
  "catch_rethrow pw =
     (case pw of
        (Rejected e, w) \<Rightarrow> (Rejected e, w)
      | (p, w) \<Rightarrow> (p, w))"

text \<open>
  The body of the \<^verbatim>\<open>try\<close> block. The call \<^verbatim>\<open>kintoneApiClient.getAppCustomize(appId)\<close>
  may throw; when it returns, the block returns the promise of the chain
  \<^verbatim>\<open>.then(...).then(...).catch(...)\<close> without awaiting it. The world next to the
  promise is the world when the promise has settled.
\<close>

definition try_block ::
  "env \<Rightarrow> string \<Rightarrow> Option \<Rightarrow> world \<Rightarrow> unit call \<times> world" where
  "try_block env appId options w =
     (case getAppCustomize env (fetch_count w) appId of
        Throws e \<Rightarrow> (Throws e, emit (Fetch appId) w)
      | Returns appCustomize \<Rightarrow>
          (case catch_rethrow
                  (then_promise
                     (then_promise (appCustomize, emit (Fetch appId) w)
                        (\<lambda>resp. exportAsManifestFile env appId (destDir options) resp))
                     (\<lambda>resp. downloadCustomizeFiles env appId (destDir options) resp)) of
             (p, w1) \<Rightarrow> (Returns p, w1)))"

text \<open>
  \<^verbatim>\<open>importCustomizeSetting\<close> is an \<^verbatim>\<open>async\<close> function: the result is how its promise
  settles. A promise returned from the \<^verbatim>\<open>try\<close> block becomes the result as it is: its
  rejection is not an exception inside the block, so the \<^verbatim>\<open>catch\<close> clause sees only
  what \<^verbatim>\<open>getAppCustomize\<close> throws before it returns. In the clause, the awaited
  recursive call settles the result; it gets a new status object
  \<^verbatim>\<open>{ retryCount }\<close>, allocated at the end of the heap.
\<close>

function importCustomizeSetting ::
  "env \<Rightarrow> ImportCustomizeManifest \<Rightarrow> nat \<Rightarrow> Option \<Rightarrow> world \<Rightarrow> unit promise \<times> world" where
  "importCustomizeSetting env manifest status options w =
     (let m = getBoundMessage env (lang options);
          appId = app manifest;
          count = retryCount (heap w ! status)
      in case try_block env appId options w of
           (Returns p, w1) \<Rightarrow> (p, w1)
         | (Throws e, w1) \<Rightarrow>
             (let isAuthenticationError = (e = AuthenticationError);
                  count1 = count + 1
              in if isAuthenticationError
                   then (Rejected (Error (m ''E_Authentication'')), w1)
                 else if count1 < MAX_RETRY_COUNT env
                   then importCustomizeSetting env manifest (length (heap w1)) options
                          ((emit (Log (m ''E_Retry'')) (emit (Wait 1000) w1))
                             \<lparr>heap := heap w1 @ [\<lparr>retryCount = count1\<rparr>]\<rparr>)
                 else (Rejected e, w1)))"
  by pat_completeness auto
termination
  by (relation "measure (\<lambda>(env, manifest, status, options, w).
                   nat (MAX_RETRY_COUNT env - retryCount (heap w ! status)))")
     (auto simp: emit_def)

declare importCustomizeSetting.simps [simp del]

subsection \<open>\<^verbatim>\<open>runImport\<close>\<close>

text \<open>
  \<^verbatim>\<open>runImport\<close> with the manifest already parsed and the client already built: it
  allocates \<^verbatim>\<open>status = { retryCount: 0 }\<close> and awaits \<^verbatim>\<open>importCustomizeSetting\<close>.
\<close>

definition runImport ::
  "env \<Rightarrow> ImportCustomizeManifest \<Rightarrow> Option \<Rightarrow> world \<Rightarrow> unit promise \<times> world" where
  "runImport env manifest options w =
     importCustomizeSetting env manifest (length (heap w)) options
       (w\<lparr>heap := heap w @ [\<lparr>retryCount = 0\<rparr>]\<rparr>)"

subsection \<open>A run to completion\<close>

text \<open>
  A run of the pipeline with everything it started completed: \<^verbatim>\<open>runImport\<close>, then the
  event loop. The order of completion is a rearrangement of the outstanding operations.
\<close>

definition run_to_completion ::
  "env \<Rightarrow> ImportCustomizeManifest \<Rightarrow> Option \<Rightarrow> (task list \<Rightarrow> task list) \<Rightarrow> world \<Rightarrow> world" where
  "run_to_completion env manifest options sched w =
     (case runImport env manifest options w of
        (r, w1) \<Rightarrow> event_loop env (sched (pending w1)) w1)"

definition rearrangement :: "(task list \<Rightarrow> task list) \<Rightarrow> bool" where
  "rearrangement sched = (\<forall>ts. mset (sched ts) = mset ts)"

section \<open>Properties kept by a statement\<close>

text \<open>A property of the world that a statement keeps.\<close>

definition preserves :: "(world \<Rightarrow> bool) \<Rightarrow> (world \<Rightarrow> 'r \<times> world) \<Rightarrow> bool" where
  "preserves P c = (\<forall>w r w'. c w = (r, w') \<longrightarrow> P w \<longrightarrow> P w')"

section \<open>The layout of the manifest file, as specified\<close>

text \<open>
  The specification gives the persisted manifest as 4-space-indented text: one key per
  line, 4 spaces deeper at each level, a non-empty list with one element per line and
  an empty list as \<^verbatim>\<open>[]\<close>. These definitions follow the specification, to be
  compared with what \<^verbatim>\<open>JSON.stringify(customizeJson, null, 4)\<close> produces.
\<close>

definition spaces :: "nat \<Rightarrow> string" where
  "spaces n = replicate n CHR '' ''"

definition spec_array_text :: "nat \<Rightarrow> string list \<Rightarrow> string" where
  "spec_array_text n xs =
     (if xs = [] then ''[]''
      else ''['' @ [CHR 0x0A] @ spaces (n + 4)
           @ join ('','' @ [CHR 0x0A] @ spaces (n + 4)) (map QuoteJSONString xs)
           @ [CHR 0x0A] @ spaces n @ '']'')"

definition spec_manifest_text :: "CustomizeManifest \<Rightarrow> string" where
  "spec_manifest_text m =
     ''{'' @ [CHR 0x0A]
     @ spaces 4 @ QuoteJSONString ''app'' @ '': '' @ QuoteJSONString (app m) @ '','' @ [CHR 0x0A]
     @ spaces 4 @ QuoteJSONString ''scope'' @ '': ''
         @ QuoteJSONString (scope_string (manifest_scope m)) @ '','' @ [CHR 0x0A]
     @ spaces 4 @ QuoteJSONString ''desktop'' @ '': {'' @ [CHR 0x0A]
     @ spaces 8 @ QuoteJSONString ''js'' @ '': ''
         @ spec_array_text 8 (manifest_desktop_js m) @ '','' @ [CHR 0x0A]
     @ spaces 8 @ QuoteJSONString ''css'' @ '': ''
         @ spec_array_text 8 (manifest_desktop_css m) @ [CHR 0x0A]
     @ spaces 4 @ ''},'' @ [CHR 0x0A]
     @ spaces 4 @ QuoteJSONString ''mobile'' @ '': {'' @ [CHR 0x0A]
     @ spaces 8 @ QuoteJSONString ''js'' @ '': ''
         @ spec_array_text 8 (manifest_mobile_js m) @ [CHR 0x0A]
     @ spaces 4 @ ''}'' @ [CHR 0x0A]
     @ ''}''"

section \<open>The entries that are downloaded\<close>

text \<open>
  The uploaded files of an asset list, in order, each as its file key and its display
  name; URL entries are left out. \<open>downloads_into env dir c entries ts\<close> says that the
  operations \<open>ts\<close> are those of the entries, one for each in order: the \<open>j\<close>-th
  writes the promise that \<^verbatim>\<open>downloadFile\<close> returned for the file key, at its call
  number \<open>c + j\<close>, to the display name under \<open>dir\<close>.
\<close>

fun uploaded :: "CustomizeFile list \<Rightarrow> (string \<times> string) list" where
  "uploaded [] = []"
| "uploaded (UploadedFile fileKey name # fs) = (fileKey, name) # uploaded fs"
| "uploaded (CDNFile url # fs) = uploaded fs"

definition downloads_into ::
  "env \<Rightarrow> string \<Rightarrow> nat \<Rightarrow> (string \<times> string) list \<Rightarrow> task list \<Rightarrow> bool" where
  "downloads_into env dir c entries ts =
     (length ts = length entries
      \<and> (\<forall>j < length entries. \<forall>p.
            downloadFile env (c + j) (fst (entries ! j)) = Returns p \<longrightarrow>
            ts ! j = ThenWriteFile p (dir @ sep env @ snd (entries ! j))))"

section \<open>The writes of a run in which everything succeeds\<close>

text \<open>
  The operation started for an uploaded file whose download is fulfilled with
  \<open>content fileKey\<close>; the path and the data of an operation that writes; the operations
  of a whole run, the manifest first; and the files they leave, a later write to a file
  winning over an earlier one.
\<close>

definition fulfilled_write :: "env \<Rightarrow> (string \<Rightarrow> string) \<Rightarrow> string \<Rightarrow> string \<times> string \<Rightarrow> task" where
  "fulfilled_write env content dir kn =
     ThenWriteFile (Fulfilled (content (fst kn))) (dir @ sep env @ snd kn)"

fun target :: "task \<Rightarrow> string" where
  "target (WriteFile path data) = path"
| "target (ThenWriteFile p path) = path"

fun payload :: "task \<Rightarrow> string option" where
  "payload (WriteFile path data) = Some data"
| "payload (ThenWriteFile (Fulfilled data) path) = Some data"
| "payload (ThenWriteFile p path) = None"

definition all_tasks ::
  "env \<Rightarrow> (string \<Rightarrow> string) \<Rightarrow> string \<Rightarrow> string \<Rightarrow> GetAppCustomizeResp \<Rightarrow> task list" where
  "all_tasks env content appId d resp =
     WriteFile (d @ sep env @ ''customize-manifest.json'')
       (JSON_stringify (manifest_json (customizeJson env appId d resp)) 4)
     # map (fulfilled_write env content (d @ sep env @ ''desktop'' @ sep env @ ''js''))
         (uploaded (desktop_js resp))
     @ map (fulfilled_write env content (d @ sep env @ ''desktop'' @ sep env @ ''css''))
         (uploaded (desktop_css resp))
     @ map (fulfilled_write env content (d @ sep env @ ''mobile'' @ sep env @ ''js''))
         (uploaded (mobile_js resp))"

definition written :: "env \<Rightarrow> task list \<Rightarrow> (string \<rightharpoonup> string)" where
  "written env ts = map_of (rev (map (\<lambda>t. (realpath env (target t), the (payload t))) ts))"

section \<open>Concrete inputs\<close>

text \<open>
  A remote configuration with one uploaded script, one script by URL and one uploaded
  style sheet; a client that answers every call, on a file system where every path names
  a file of its own; a world with an empty file system and the caller's status object
  \<^verbatim>\<open>{ retryCount: 0 }\<close> at reference 0.
\<close>

definition ex_resp :: GetAppCustomizeResp where
  "ex_resp =
     \<lparr>scope = Scope_ALL,
      desktop_js = [UploadedFile ''k1'' ''a.js'', CDNFile ''https://cdn/x.js''],
      desktop_css = [UploadedFile ''k2'' ''b.css''],
      mobile_js = []\<rparr>"

definition ex_env :: env where
  "ex_env =
     \<lparr>platform = Posix,
      MAX_RETRY_COUNT = 3,
      getBoundMessage = (\<lambda>l k. l @ '':'' @ k),
      getAppCustomize = (\<lambda>n a. Returns (Fulfilled ex_resp)),
      downloadFile = (\<lambda>n k. Returns (Fulfilled (''data of '' @ k))),
      mkdirp_error = (\<lambda>p. None),
      writeFile_error = (\<lambda>p. None),
      realpath = (\<lambda>p. p)\<rparr>"

definition ex_world :: world where
  "ex_world =
     \<lparr>dirs = {}, files = Map.empty, heap = [\<lparr>retryCount = 0\<rparr>], trace = [],
      pending = [], uncaught = [], unhandled = []\<rparr>"

definition ex_options :: Option where
  "ex_options = \<lparr>lang = ''en'', proxy = [], guestSpaceId = 0, destDir = ''d''\<rparr>"

definition ex_manifest :: ImportCustomizeManifest where
  "ex_manifest = \<lparr>app = ''1''\<rparr>"

text \<open>Clients whose \<^verbatim>\<open>getAppCustomize\<close> fails: by a rejected promise, as an
  \<^verbatim>\<open>async\<close> method does, or by throwing before it returns.\<close>

definition ex_env_rejecting :: env where
  "ex_env_rejecting =
     ex_env\<lparr>getAppCustomize := (\<lambda>n a. Returns (Rejected (Error ''ECONNRESET'')))\<rparr>"

definition ex_env_auth_rejecting :: env where
  "ex_env_auth_rejecting =
     ex_env\<lparr>getAppCustomize := (\<lambda>n a. Returns (Rejected AuthenticationError))\<rparr>"

definition ex_env_throwing :: env where
  "ex_env_throwing = ex_env\<lparr>getAppCustomize := (\<lambda>n a. Throws (Error ''ECONNRESET''))\<rparr>"

text \<open>An operating system that refuses to write the manifest file.\<close>

definition ex_env_eacces :: env where
  "ex_env_eacces =
     ex_env\<lparr>writeFile_error :=
       (\<lambda>p. if p = ''d/customize-manifest.json'' then Some (Error ''EACCES'') else None)\<rparr>"

text \<open>A remote configuration with two uploaded scripts of the same display name.\<close>

definition ex_resp_same_name :: GetAppCustomizeResp where
  "ex_resp_same_name =
     \<lparr>scope = Scope_ALL,
      desktop_js = [UploadedFile ''k1'' ''a.js'', UploadedFile ''k2'' ''a.js''],
      desktop_css = [],
      mobile_js = []\<rparr>"

definition ex_env_same_name :: env where
  "ex_env_same_name =
     ex_env\<lparr>getAppCustomize := (\<lambda>n a. Returns (Fulfilled ex_resp_same_name))\<rparr>"

text \<open>
  Two uploaded scripts with different display names that name one file: the file system
  takes \<^verbatim>\<open>./a.js\<close> in the scripts' directory for \<^verbatim>\<open>a.js\<close> there.
\<close>

definition ex_resp_alias :: GetAppCustomizeResp where
  "ex_resp_alias =
     \<lparr>scope = Scope_ALL,
      desktop_js = [UploadedFile ''k1'' ''a.js'', UploadedFile ''k2'' ''./a.js''],
      desktop_css = [],
      mobile_js = []\<rparr>"

definition ex_env_alias :: env where
  "ex_env_alias =
     ex_env\<lparr>getAppCustomize := (\<lambda>n a. Returns (Fulfilled ex_resp_alias)),
            realpath := (\<lambda>p. if p = ''d/desktop/js/./a.js'' then ''d/desktop/js/a.js'' else p)\<rparr>"

section \<open>What each stage leaves untouched\<close>

lemma emit_fields [simp]:
  "dirs (emit e w) = dirs w" "files (emit e w) = files w" "heap (emit e w) = heap w"
  "trace (emit e w) = trace w @ [e]" "pending (emit e w) = pending w"
  "uncaught (emit e w) = uncaught w" "unhandled (emit e w) = unhandled w"
  by (simp_all add: emit_def)

lemma fs_writeFile_fields [simp]:
  "dirs (fs_writeFile p d w) = dirs w" "files (fs_writeFile p d w) = files w"
  "heap (fs_writeFile p d w) = heap w" "trace (fs_writeFile p d w) = trace w"
  "pending (fs_writeFile p d w) = pending w @ [WriteFile p d]"
  "uncaught (fs_writeFile p d w) = uncaught w" "unhandled (fs_writeFile p d w) = unhandled w"
  by (simp_all add: fs_writeFile_def)

lemma mkdirp_sync_frame:
  assumes "mkdirp_sync env p w = (r, w')"
  shows "files w' = files w" "heap w' = heap w" "trace w' = trace w" "pending w' = pending w"
    "uncaught w' = uncaught w" "unhandled w' = unhandled w" "dirs w \<subseteq> dirs w'"
  using assms by (auto simp: mkdirp_sync_def split: option.splits)

lemma exportAsManifestFile_frame:
  assumes "exportAsManifestFile env appId d resp w = (r, w')"
  shows "files w' = files w" "heap w' = heap w" "trace w' = trace w"
    "uncaught w' = uncaught w" "unhandled w' = unhandled w" "dirs w \<subseteq> dirs w'"
  using assms
  by (auto simp: exportAsManifestFile_def mkdirp_sync_def split: if_splits option.splits)

lemma preservesD: "preserves P c \<Longrightarrow> c w = (r, w') \<Longrightarrow> P w \<Longrightarrow> P w'"
  unfolding preserves_def by blast

lemma preserves_and_then:
  assumes "preserves P f" and "preserves P g"
  shows "preserves P (and_then f g)"
  unfolding preserves_def
proof (intro allI impI)
  fix w r w'
  assume run: "and_then f g w = (r, w')" and start: "P w"
  obtain r1 w1 where f: "f w = (r1, w1)" by (cases "f w")
  have p1: "P w1" using assms(1) f start by (rule preservesD)
  show "P w'"
  proof (cases r1)
    case (Inl e)
    with run f p1 show ?thesis by (simp add: and_then_def)
  next
    case (Inr u)
    with run f have "g w1 = (r, w')" by (simp add: and_then_def)
    with assms(2) show ?thesis using p1 by (rule preservesD)
  qed
qed

lemma preserves_forEach:
  assumes "\<And>x. preserves P (f x)"
  shows "preserves P (forEach f xs)"
proof (induction xs)
  case Nil
  show ?case by (simp add: preserves_def)
next
  case (Cons x xs)
  have "forEach f (x # xs) = and_then (f x) (forEach f xs)" by (rule ext) simp
  then show ?case using assms Cons.IH by (simp add: preserves_and_then)
qed

lemma preserves_downloadCustomizeFiles:
  assumes "\<And>p. preserves P (mkdirp_sync env p)"
    and "\<And>dd f. preserves P (downloadAndWriteFile env dd f)"
  shows "preserves P (downloadCustomizeFiles env appId d resp)"
  unfolding downloadCustomizeFiles_def
  by (intro preserves_and_then preserves_forEach assms)

lemma downloadAndWriteFile_frame:
  assumes "downloadAndWriteFile env d f w = (r, w')"
  shows "files w' = files w" "heap w' = heap w" "dirs w' = dirs w"
    "uncaught w' = uncaught w" "unhandled w' = unhandled w"
  using assms
  by (auto simp: downloadAndWriteFile_def split: CustomizeFile.splits call.splits)

lemma downloadCustomizeFiles_frame:
  assumes "downloadCustomizeFiles env appId d resp w = (r, w')"
  shows "files w' = files w" "heap w' = heap w"
    "uncaught w' = uncaught w" "unhandled w' = unhandled w"
proof -
  have "preserves (\<lambda>v. files v = files w) (downloadCustomizeFiles env appId d resp)"
    by (rule preserves_downloadCustomizeFiles)
       (auto simp: preserves_def mkdirp_sync_frame downloadAndWriteFile_frame)
  then show "files w' = files w" using assms by (rule preservesD) simp
  have "preserves (\<lambda>v. heap v = heap w) (downloadCustomizeFiles env appId d resp)"
    by (rule preserves_downloadCustomizeFiles)
       (auto simp: preserves_def mkdirp_sync_frame downloadAndWriteFile_frame)
  then show "heap w' = heap w" using assms by (rule preservesD) simp
  have "preserves (\<lambda>v. uncaught v = uncaught w) (downloadCustomizeFiles env appId d resp)"
    by (rule preserves_downloadCustomizeFiles)
       (auto simp: preserves_def mkdirp_sync_frame downloadAndWriteFile_frame)
  then show "uncaught w' = uncaught w" using assms by (rule preservesD) simp
  have "preserves (\<lambda>v. unhandled v = unhandled w) (downloadCustomizeFiles env appId d resp)"
    by (rule preserves_downloadCustomizeFiles)
       (auto simp: preserves_def mkdirp_sync_frame downloadAndWriteFile_frame)
  then show "unhandled w' = unhandled w" using assms by (rule preservesD) simp
qed

lemma then_promise_preserves:
  assumes cb: "\<And>v. preserves P (callback v)"
    and run: "then_promise (p, w) callback = (q, w')"
    and start: "P w"
  shows "P w'"
proof (cases p)
  case (Fulfilled v)
  obtain r1 w1 where c: "callback v w = (r1, w1)" by (cases "callback v w")
  have "P w1" using cb c start by (rule preservesD)
  with run Fulfilled c show ?thesis
    by (cases r1) (simp_all add: then_promise_def)
next
  case (Rejected e)
  with run start show ?thesis by (simp add: then_promise_def)
next
  case Pending
  with run start show ?thesis by (simp add: then_promise_def)
qed

lemma catch_rethrow_id: "catch_rethrow pw = pw"
  by (cases pw) (simp add: catch_rethrow_def split: promise.splits)

lemma preserves_try_block:
  assumes ex: "\<And>a d r. preserves P (exportAsManifestFile env a d r)"
    and dl: "\<And>a d r. preserves P (downloadCustomizeFiles env a d r)"
    and em: "\<And>e w. P w \<Longrightarrow> P (emit e w)"
  shows "preserves P (try_block env appId options)"
  unfolding preserves_def
proof (intro allI impI)
  fix w r w'
  assume run: "try_block env appId options w = (r, w')" and start: "P w"
  have p0: "P (emit (Fetch appId) w)" using start by (rule em)
  show "P w'"
  proof (cases "getAppCustomize env (fetch_count w) appId")
    case (Throws e)
    with run p0 show ?thesis by (simp add: try_block_def)
  next
    case (Returns appCustomize)
    obtain q1 w1 where s1:
      "then_promise (appCustomize, emit (Fetch appId) w)
         (\<lambda>resp. exportAsManifestFile env appId (destDir options) resp) = (q1, w1)"
      by (cases "then_promise (appCustomize, emit (Fetch appId) w)
         (\<lambda>resp. exportAsManifestFile env appId (destDir options) resp)")
    obtain q2 w2 where s2:
      "then_promise (q1, w1)
         (\<lambda>resp. downloadCustomizeFiles env appId (destDir options) resp) = (q2, w2)"
      by (cases "then_promise (q1, w1)
         (\<lambda>resp. downloadCustomizeFiles env appId (destDir options) resp)")
    have p1: "P w1" using ex s1 p0 by (rule then_promise_preserves)
    have p2: "P w2" using dl s2 p1 by (rule then_promise_preserves)
    from run Returns s1 s2 have "w' = w2"
      by (simp add: try_block_def catch_rethrow_id)
    with p2 show ?thesis by simp
  qed
qed

lemma try_block_frame:
  assumes "try_block env appId options w = (r, w')"
  shows "files w' = files w" "heap w' = heap w"
    "uncaught w' = uncaught w" "unhandled w' = unhandled w"
proof -
  have "preserves (\<lambda>v. files v = files w) (try_block env appId options)"
    by (rule preserves_try_block)
       (auto simp: preserves_def exportAsManifestFile_frame downloadCustomizeFiles_frame)
  then show "files w' = files w" using assms by (rule preservesD) simp
  have "preserves (\<lambda>v. heap v = heap w) (try_block env appId options)"
    by (rule preserves_try_block)
       (auto simp: preserves_def exportAsManifestFile_frame downloadCustomizeFiles_frame)
  then show "heap w' = heap w" using assms by (rule preservesD) simp
  have "preserves (\<lambda>v. uncaught v = uncaught w) (try_block env appId options)"
    by (rule preserves_try_block)
       (auto simp: preserves_def exportAsManifestFile_frame downloadCustomizeFiles_frame)
  then show "uncaught w' = uncaught w" using assms by (rule preservesD) simp
  have "preserves (\<lambda>v. unhandled v = unhandled w) (try_block env appId options)"
    by (rule preserves_try_block)
       (auto simp: preserves_def exportAsManifestFile_frame downloadCustomizeFiles_frame)
  then show "unhandled w' = unhandled w" using assms by (rule preservesD) simp
qed

lemma importCustomizeSetting_heap_prefix:
  "\<exists>rest. heap (snd (importCustomizeSetting env manifest status options w)) = heap w @ rest"
proof (induction env manifest status options w rule: importCustomizeSetting.induct)
  case (1 env manifest status options w)
  obtain c w1 where tb: "try_block env (app manifest) options w = (c, w1)"
    by (cases "try_block env (app manifest) options w")
  have h1: "heap w1 = heap w" using tb by (rule try_block_frame)
  show ?case
  proof (cases c)
    case (Returns p)
    with tb h1 show ?thesis by (simp add: importCustomizeSetting.simps [of env manifest status options w])
  next
    case (Throws e)
    show ?thesis
    proof (cases "e \<noteq> AuthenticationError \<and> retryCount (heap w ! status) + 1 < MAX_RETRY_COUNT env")
      case False
      with tb h1 Throws show ?thesis
        by (auto simp add: importCustomizeSetting.simps [of env manifest status options w] Let_def)
    next
      case True
      let ?w2 = "(emit (Log (getBoundMessage env (lang options) ''E_Retry'')) (emit (Wait 1000) w1))
                     \<lparr>heap := heap w1 @ [\<lparr>retryCount = retryCount (heap w ! status) + 1\<rparr>]\<rparr>"
      have "\<exists>rest. heap (snd (importCustomizeSetting env manifest (length (heap w1)) options ?w2)) = heap ?w2 @ rest"
        using "1.IH" [OF refl refl refl tb [symmetric] Throws refl refl] True by simp
      then obtain rest where "heap (snd (importCustomizeSetting env manifest (length (heap w1)) options ?w2)) = heap ?w2 @ rest" ..
      with tb h1 Throws True show ?thesis
        by (simp add: importCustomizeSetting.simps [of env manifest status options w] Let_def)
    qed
  qed
qed

section \<open>Evaluating the concrete inputs\<close>

lemmas ex_defs = ex_env_def ex_resp_def ex_world_def ex_options_def ex_manifest_def

lemmas run_defs = try_block_def then_promise_def catch_rethrow_def
  exportAsManifestFile_def downloadCustomizeFiles_def downloadAndWriteFile_def and_then_def
  emit_def fetch_count_def download_count_def mkdirp_sync_def existsSync_def
  fs_writeFile_def sep_def

section \<open>The retry policy of \<^verbatim>\<open>importCustomizeSetting\<close>\<close>

text \<open>
  What the \<^verbatim>\<open>catch\<close> clause does with an error that \<^verbatim>\<open>getAppCustomize\<close> throws
  before it returns: a persistent error that is not an authentication error is given up
  after \<^verbatim>\<open>MAX_RETRY_COUNT - retryCount\<close> fetches, and after one when that is less; an
  authentication error is replaced by the localized one after a single fetch.
\<close>

lemma try_block_throws:
  assumes "getAppCustomize env (fetch_count w) appId = Throws e"
  shows "try_block env appId options w = (Throws e, emit (Fetch appId) w)"
  using assms by (simp add: try_block_def)

lemma fetch_count_emit_Fetch [simp]: "fetch_count (emit (Fetch a) w) = Suc (fetch_count w)"
  by (simp add: fetch_count_def)

lemma fetch_count_emit_other [simp]:
  "fetch_count (emit (Wait n) w) = fetch_count w" "fetch_count (emit (Log t) w) = fetch_count w"
  by (simp_all add: fetch_count_def)

lemma fetch_count_heap [simp]: "fetch_count (w\<lparr>heap := h\<rparr>) = fetch_count w"
  by (simp add: fetch_count_def)

lemma thrown_fetch_is_retried:
  assumes "\<forall>n. getAppCustomize env n (app manifest) = Throws e"
    and "e \<noteq> AuthenticationError"
  shows "fst (importCustomizeSetting env manifest status options w) = Rejected e
    \<and> fetch_count (snd (importCustomizeSetting env manifest status options w))
        = fetch_count w + max 1 (nat (MAX_RETRY_COUNT env - retryCount (heap w ! status)))"
  using assms
proof (induction env manifest status options w rule: importCustomizeSetting.induct)
  case (1 env manifest status options w)
  let ?w1 = "emit (Fetch (app manifest)) w"
  have tb: "try_block env (app manifest) options w = (Throws e, ?w1)"
    using "1.prems"(1) by (simp add: try_block_throws)
  show ?case
  proof (cases "retryCount (heap w ! status) + 1 < MAX_RETRY_COUNT env")
    case False
    with tb "1.prems"(2) show ?thesis
      by (simp add: importCustomizeSetting.simps [of env manifest status options w])
  next
    case True
    let ?w2 = "(emit (Log (getBoundMessage env (lang options) ''E_Retry'')) (emit (Wait 1000) ?w1))
                 \<lparr>heap := heap ?w1 @ [\<lparr>retryCount = retryCount (heap w ! status) + 1\<rparr>]\<rparr>"
    have step: "importCustomizeSetting env manifest status options w
                  = importCustomizeSetting env manifest (length (heap ?w1)) options ?w2"
      using tb True "1.prems"(2)
      by (simp add: importCustomizeSetting.simps [of env manifest status options w])
    have ih: "fst (importCustomizeSetting env manifest (length (heap ?w1)) options ?w2) = Rejected e
      \<and> fetch_count (snd (importCustomizeSetting env manifest (length (heap ?w1)) options ?w2))
          = fetch_count ?w2
            + max 1 (nat (MAX_RETRY_COUNT env - retryCount (heap ?w2 ! length (heap ?w1))))"
      using "1.IH" [OF refl refl refl tb [symmetric] refl refl refl _ True "1.prems"]
        "1.prems"(2) by simp
    have "heap ?w2 ! length (heap ?w1) = \<lparr>retryCount = retryCount (heap w ! status) + 1\<rparr>"
      by simp
    moreover have "max 1 (nat (MAX_RETRY_COUNT env - retryCount (heap w ! status)))
        = Suc (max 1 (nat (MAX_RETRY_COUNT env - (retryCount (heap w ! status) + 1))))"
      using True by (simp add: max_def) arith
    ultimately show ?thesis using ih unfolding step by simp
  qed
qed

lemma thrown_authentication_error_is_localized:
  assumes "getAppCustomize env (fetch_count w) (app manifest) = Throws AuthenticationError"
  shows "importCustomizeSetting env manifest status options w =
           (Rejected (Error (getBoundMessage env (lang options) ''E_Authentication'')),
            emit (Fetch (app manifest)) w)"
  using try_block_throws [OF assms]
  by (simp add: importCustomizeSetting.simps [of env manifest status options w])

text \<open>
  Claim C1. Every failure of the fetch, manifest or download stage that is not an
  authentication failure is retried while the incremented \<^verbatim>\<open>retryCount\<close> is below
  \<^verbatim>\<open>MAX_RETRY_COUNT\<close>: wait 1000 ms, print the retry notice, call again; a persistent
  failure is given up after \<^verbatim>\<open>MAX_RETRY_COUNT\<close> attempts.

  The code does this for what \<^verbatim>\<open>getAppCustomize\<close> throws before it returns, and not
  for a rejected promise: with \<^verbatim>\<open>MAX_RETRY_COUNT = 3\<close> and \<^verbatim>\<open>retryCount = 0\<close>, a
  fetch whose promise is rejected with a connection error is attempted once, nothing is
  waited for or printed, and the error is the result.
\<close>

theorem rejected_fetch_is_not_retried:
  "MAX_RETRY_COUNT ex_env_rejecting = 3
   \<and> retryCount (heap ex_world ! 0) = 0
   \<and> getAppCustomize ex_env_rejecting 0 ''1'' = Returns (Rejected (Error ''ECONNRESET''))
   \<and> fst (importCustomizeSetting ex_env_rejecting ex_manifest 0 ex_options ex_world)
       = Rejected (Error ''ECONNRESET'')
   \<and> trace (snd (importCustomizeSetting ex_env_rejecting ex_manifest 0 ex_options ex_world))
       = [Fetch ''1'']"
  by (simp add: importCustomizeSetting.simps Let_def ex_env_rejecting_def ex_defs run_defs)

text \<open>
  Claim C2. An authentication failure of the fetch, at any \<^verbatim>\<open>retryCount\<close>, is
  attempted once, not retried, and reported with the localized message
  \<^verbatim>\<open>m("E_Authentication")\<close> in place of the original error.

  When the promise of \<^verbatim>\<open>getAppCustomize\<close> is rejected with an
  \<^verbatim>\<open>AuthenticationError\<close>, the result is that very error, not the localized one.
\<close>

theorem rejected_authentication_error_is_not_localized:
  "getAppCustomize ex_env_auth_rejecting 0 ''1'' = Returns (Rejected AuthenticationError)
   \<and> fst (importCustomizeSetting ex_env_auth_rejecting ex_manifest 0 ex_options ex_world)
       = Rejected AuthenticationError
   \<and> fst (importCustomizeSetting ex_env_auth_rejecting ex_manifest 0 ex_options ex_world)
       \<noteq> Rejected (Error (getBoundMessage ex_env_auth_rejecting (lang ex_options)
                            ''E_Authentication''))
   \<and> trace (snd (importCustomizeSetting ex_env_auth_rejecting ex_manifest 0 ex_options
                   ex_world))
       = [Fetch ''1'']"
  by (simp add: importCustomizeSetting.simps Let_def ex_env_auth_rejecting_def ex_defs run_defs)

text \<open>
  Claim C3. When an attempt fails with an error that is not an authentication error
  and the incremented \<^verbatim>\<open>retryCount\<close> is not below \<^verbatim>\<open>MAX_RETRY_COUNT\<close>, the result
  is that same error, and the world is the one the failed attempt left: nothing is
  waited for, printed, allocated or called after the failure. The attempt is the body
  of the \<^verbatim>\<open>try\<close> block; it fails by throwing or by the rejection of its promise.
\<close>

theorem exhausted_retries_reraise:
  assumes "try_block env (app manifest) options w = (Throws e, w1)
           \<or> try_block env (app manifest) options w = (Returns (Rejected e), w1)"
    and "e \<noteq> AuthenticationError"
    and "\<not> retryCount (heap w ! status) + 1 < MAX_RETRY_COUNT env"
  shows "importCustomizeSetting env manifest status options w = (Rejected e, w1)"
  using assms by (auto simp: importCustomizeSetting.simps [of env manifest status options w])

theorem exhausted_retries_reraise_witness:
  "try_block ex_env_throwing (app ex_manifest) ex_options (ex_world\<lparr>heap := [\<lparr>retryCount = 2\<rparr>]\<rparr>)
     = (Throws (Error ''ECONNRESET''), emit (Fetch ''1'') (ex_world\<lparr>heap := [\<lparr>retryCount = 2\<rparr>]\<rparr>))
   \<and> Error ''ECONNRESET'' \<noteq> AuthenticationError
   \<and> \<not> retryCount (heap (ex_world\<lparr>heap := [\<lparr>retryCount = 2\<rparr>]\<rparr>) ! 0) + 1
         < MAX_RETRY_COUNT ex_env_throwing
   \<and> importCustomizeSetting ex_env_throwing ex_manifest 0 ex_options
        (ex_world\<lparr>heap := [\<lparr>retryCount = 2\<rparr>]\<rparr>)
      = (Rejected (Error ''ECONNRESET''), emit (Fetch ''1'') (ex_world\<lparr>heap := [\<lparr>retryCount = 2\<rparr>]\<rparr>))"
proof -
  let ?w = "ex_world\<lparr>heap := [\<lparr>retryCount = 2\<rparr>]\<rparr>"
  have tb: "try_block ex_env_throwing (app ex_manifest) ex_options ?w
              = (Throws (Error ''ECONNRESET''), emit (Fetch ''1'') ?w)"
    by (simp add: try_block_def ex_env_throwing_def ex_defs)
  have ne: "Error ''ECONNRESET'' \<noteq> AuthenticationError" by simp
  have ex: "\<not> retryCount (heap ?w ! 0) + 1 < MAX_RETRY_COUNT ex_env_throwing"
    by (simp add: ex_env_throwing_def ex_defs)
  have "importCustomizeSetting ex_env_throwing ex_manifest 0 ex_options ?w
          = (Rejected (Error ''ECONNRESET''), emit (Fetch ''1'') ?w)"
    using tb ne ex by (intro exhausted_retries_reraise) simp_all
  with tb ne ex show ?thesis by simp
qed

section \<open>The status object\<close>

text \<open>
  Claim C10. \<^verbatim>\<open>importCustomizeSetting\<close> never writes to the status object it is
  given: every status object that exists before the call, the caller's among them,
  holds the same \<^verbatim>\<open>retryCount\<close> afterwards, whatever the outcome. A retry is called
  with a new object, at a reference that was not in use, which holds the incremented
  count.
\<close>

theorem status_object_is_not_mutated:
  "(\<forall>a < length (heap w).
      heap (snd (importCustomizeSetting env manifest status options w)) ! a = heap w ! a)
   \<and> (\<forall>e w1. try_block env (app manifest) options w = (Throws e, w1)
          \<and> e \<noteq> AuthenticationError
          \<and> retryCount (heap w ! status) + 1 < MAX_RETRY_COUNT env \<longrightarrow>
        length (heap w) \<notin> {a. a < length (heap w)}
        \<and> importCustomizeSetting env manifest status options w =
          importCustomizeSetting env manifest (length (heap w)) options
            ((emit (Log (getBoundMessage env (lang options) ''E_Retry'')) (emit (Wait 1000) w1))
               \<lparr>heap := heap w @ [\<lparr>retryCount = retryCount (heap w ! status) + 1\<rparr>]\<rparr>))"
proof -
  obtain rest where
    "heap (snd (importCustomizeSetting env manifest status options w)) = heap w @ rest"
    using importCustomizeSetting_heap_prefix by blast
  then have a: "\<forall>a < length (heap w).
      heap (snd (importCustomizeSetting env manifest status options w)) ! a = heap w ! a"
    by (simp add: nth_append)
  have b: "\<forall>e w1. try_block env (app manifest) options w = (Throws e, w1)
          \<and> e \<noteq> AuthenticationError
          \<and> retryCount (heap w ! status) + 1 < MAX_RETRY_COUNT env \<longrightarrow>
        length (heap w) \<notin> {a. a < length (heap w)}
        \<and> importCustomizeSetting env manifest status options w =
          importCustomizeSetting env manifest (length (heap w)) options
            ((emit (Log (getBoundMessage env (lang options) ''E_Retry'')) (emit (Wait 1000) w1))
               \<lparr>heap := heap w @ [\<lparr>retryCount = retryCount (heap w ! status) + 1\<rparr>]\<rparr>)"
  proof (intro allI impI, elim conjE)
    fix e w1
    assume tb: "try_block env (app manifest) options w = (Throws e, w1)"
      and ne: "e \<noteq> AuthenticationError"
      and lt: "retryCount (heap w ! status) + 1 < MAX_RETRY_COUNT env"
    have h: "heap w1 = heap w" using tb by (rule try_block_frame)
    show "length (heap w) \<notin> {a. a < length (heap w)}
        \<and> importCustomizeSetting env manifest status options w =
          importCustomizeSetting env manifest (length (heap w)) options
            ((emit (Log (getBoundMessage env (lang options) ''E_Retry'')) (emit (Wait 1000) w1))
               \<lparr>heap := heap w @ [\<lparr>retryCount = retryCount (heap w ! status) + 1\<rparr>]\<rparr>)"
      using tb ne lt h
      by (simp add: importCustomizeSetting.simps [of env manifest status options w])
  qed
  from a b show ?thesis by blast
qed

theorem status_object_is_not_mutated_witness:
  "0 < length (heap ex_world)
   \<and> try_block ex_env_throwing (app ex_manifest) ex_options ex_world
       = (Throws (Error ''ECONNRESET''), emit (Fetch ''1'') ex_world)
   \<and> Error ''ECONNRESET'' \<noteq> AuthenticationError
   \<and> retryCount (heap ex_world ! 0) + 1 < MAX_RETRY_COUNT ex_env_throwing
   \<and> heap (snd (importCustomizeSetting ex_env_throwing ex_manifest 0 ex_options ex_world)) ! 0
       = \<lparr>retryCount = 0\<rparr>
   \<and> importCustomizeSetting ex_env_throwing ex_manifest 0 ex_options ex_world =
       importCustomizeSetting ex_env_throwing ex_manifest 1 ex_options
         ((emit (Log ''en:E_Retry'') (emit (Wait 1000) (emit (Fetch ''1'') ex_world)))
            \<lparr>heap := [\<lparr>retryCount = 0\<rparr>, \<lparr>retryCount = 1\<rparr>]\<rparr>)"
proof -
  have tb: "try_block ex_env_throwing (app ex_manifest) ex_options ex_world
       = (Throws (Error ''ECONNRESET''), emit (Fetch ''1'') ex_world)"
    by (simp add: try_block_def ex_env_throwing_def ex_defs)
  have c: "retryCount (heap ex_world ! 0) + 1 < MAX_RETRY_COUNT ex_env_throwing"
    by (simp add: ex_env_throwing_def ex_defs)
  have l: "0 < length (heap ex_world)" by (simp add: ex_world_def)
  have h0: "heap ex_world ! 0 = \<lparr>retryCount = 0\<rparr>" "length (heap ex_world) = 1"
    "heap ex_world = [\<lparr>retryCount = 0\<rparr>]"
    "getBoundMessage ex_env_throwing (lang ex_options) ''E_Retry'' = ''en:E_Retry''"
    by (simp_all add: ex_world_def ex_env_throwing_def ex_defs)
  note t = status_object_is_not_mutated [of ex_world ex_env_throwing ex_manifest 0 ex_options]
  from t l have 1:
    "heap (snd (importCustomizeSetting ex_env_throwing ex_manifest 0 ex_options ex_world)) ! 0
       = \<lparr>retryCount = 0\<rparr>"
    using h0 by simp
  from t tb c have 2:
    "importCustomizeSetting ex_env_throwing ex_manifest 0 ex_options ex_world =
       importCustomizeSetting ex_env_throwing ex_manifest 1 ex_options
         ((emit (Log ''en:E_Retry'') (emit (Wait 1000) (emit (Fetch ''1'') ex_world)))
            \<lparr>heap := [\<lparr>retryCount = 0\<rparr>, \<lparr>retryCount = 1\<rparr>]\<rparr>)"
    using h0 by simp
  from l tb c 1 2 show ?thesis by simp
qed

section \<open>The manifest writer\<close>

text \<open>
  Claim C8. \<^verbatim>\<open>exportAsManifestFile\<close> returns its \<^verbatim>\<open>resp\<close> argument: it returns
  whenever the destination exists or can be created, and whatever it returns is the
  argument.
\<close>

theorem exportAsManifestFile_returns_resp:
  "(existsSync env w d \<or> mkdirp_error env d = None
      \<longrightarrow> fst (exportAsManifestFile env appId d resp w) = Inr resp)
   \<and> (\<forall>r. fst (exportAsManifestFile env appId d resp w) = Inr r \<longrightarrow> r = resp)"
  by (auto simp: exportAsManifestFile_def mkdirp_sync_def split: option.splits)

theorem exportAsManifestFile_returns_resp_witness:
  "mkdirp_error ex_env ''d'' = None
   \<and> fst (exportAsManifestFile ex_env ''1'' ''d'' ex_resp ex_world) = Inr ex_resp"
  using exportAsManifestFile_returns_resp
    [where env = ex_env and w = ex_world and d = "''d''" and appId = "''1''" and resp = ex_resp]
  by (simp add: ex_env_def)

text \<open>
  Claim C4. In the manifest that is persisted, \<^verbatim>\<open>app\<close> is the app id of the call,
  \<^verbatim>\<open>scope\<close> is the remote scope, each of the three lists has the length and the order
  of the remote list, an uploaded file in \<^verbatim>\<open>desktop.js\<close>, \<^verbatim>\<open>desktop.css\<close> or
  \<^verbatim>\<open>mobile.js\<close> becomes the destination directory, the two directory names and the
  file name joined by the platform's separator, and a URL entry stays as it is. The text
  handed to \<^verbatim>\<open>fs.writeFile\<close> is the serialisation of this manifest.
\<close>

theorem customizeJson_entries:
  fixes env appId d resp
  defines "m \<equiv> customizeJson env appId d resp"
  shows "app m = appId \<and> manifest_scope m = scope resp
    \<and> (sep env = ''/'' \<or> sep env = [CHR 0x5C])
    \<and> length (manifest_desktop_js m) = length (desktop_js resp)
    \<and> length (manifest_desktop_css m) = length (desktop_css resp)
    \<and> length (manifest_mobile_js m) = length (mobile_js resp)
    \<and> (\<forall>i < length (desktop_js resp). manifest_desktop_js m ! i =
          (case desktop_js resp ! i of
             UploadedFile fileKey name \<Rightarrow>
               d @ sep env @ ''desktop'' @ sep env @ ''js'' @ sep env @ name
           | CDNFile url \<Rightarrow> url))
    \<and> (\<forall>i < length (desktop_css resp). manifest_desktop_css m ! i =
          (case desktop_css resp ! i of
             UploadedFile fileKey name \<Rightarrow>
               d @ sep env @ ''desktop'' @ sep env @ ''css'' @ sep env @ name
           | CDNFile url \<Rightarrow> url))
    \<and> (\<forall>i < length (mobile_js resp). manifest_mobile_js m ! i =
          (case mobile_js resp ! i of
             UploadedFile fileKey name \<Rightarrow>
               d @ sep env @ ''mobile'' @ sep env @ ''js'' @ sep env @ name
           | CDNFile url \<Rightarrow> url))
    \<and> (\<forall>r w w'. exportAsManifestFile env appId d resp w = (Inr r, w') \<longrightarrow>
          pending w' = pending w @
            [WriteFile (d @ sep env @ ''customize-manifest.json'')
               (JSON_stringify (manifest_json m) 4)])"
proof -
  have s: "sep env = ''/'' \<or> sep env = [CHR 0x5C]"
    by (cases "platform env") (simp_all add: sep_def)
  have p: "\<forall>r w w'. exportAsManifestFile env appId d resp w = (Inr r, w') \<longrightarrow>
          pending w' = pending w @
            [WriteFile (d @ sep env @ ''customize-manifest.json'')
               (JSON_stringify (manifest_json m) 4)]"
    by (auto simp: exportAsManifestFile_def mkdirp_sync_def m_def
        split: if_splits option.splits)
  have e: "\<And>dd x. toNameOrUrl env dd x =
      (case x of UploadedFile fileKey name \<Rightarrow> dd @ sep env @ name | CDNFile url \<Rightarrow> url)"
    by (simp add: toNameOrUrl_def)
  have f: "app m = appId" "manifest_scope m = scope resp"
    "manifest_desktop_js m =
       map (toNameOrUrl env (d @ sep env @ ''desktop'' @ sep env @ ''js'')) (desktop_js resp)"
    "manifest_desktop_css m =
       map (toNameOrUrl env (d @ sep env @ ''desktop'' @ sep env @ ''css'')) (desktop_css resp)"
    "manifest_mobile_js m =
       map (toNameOrUrl env (d @ sep env @ ''mobile'' @ sep env @ ''js'')) (mobile_js resp)"
    by (simp_all add: m_def customizeJson_def)
  show ?thesis
    unfolding f using s p by (auto simp: e split: CustomizeFile.splits)
qed

theorem customizeJson_entries_witness:
  "0 < length (desktop_js ex_resp) \<and> 1 < length (desktop_js ex_resp)
   \<and> 0 < length (desktop_css ex_resp)
   \<and> manifest_desktop_js (customizeJson ex_env ''1'' ''d'' ex_resp) ! 0 = ''d/desktop/js/a.js''
   \<and> manifest_desktop_js (customizeJson ex_env ''1'' ''d'' ex_resp) ! 1 = ''https://cdn/x.js''
   \<and> manifest_desktop_css (customizeJson ex_env ''1'' ''d'' ex_resp) ! 0 = ''d/desktop/css/b.css''
   \<and> exportAsManifestFile ex_env ''1'' ''d'' ex_resp ex_world
       = (Inr ex_resp, snd (exportAsManifestFile ex_env ''1'' ''d'' ex_resp ex_world))
   \<and> pending (snd (exportAsManifestFile ex_env ''1'' ''d'' ex_resp ex_world))
       = [WriteFile ''d/customize-manifest.json''
            (JSON_stringify (manifest_json (customizeJson ex_env ''1'' ''d'' ex_resp)) 4)]"
proof -
  note t = customizeJson_entries [of ex_env "''1''" "''d''" ex_resp]
  have l: "0 < length (desktop_js ex_resp)" "1 < length (desktop_js ex_resp)"
    "0 < length (desktop_css ex_resp)"
    by (simp_all add: ex_resp_def)
  have r: "exportAsManifestFile ex_env ''1'' ''d'' ex_resp ex_world
       = (Inr ex_resp, snd (exportAsManifestFile ex_env ''1'' ''d'' ex_resp ex_world))"
    by (simp add: exportAsManifestFile_def mkdirp_sync_def existsSync_def ex_defs)
  have s: "sep ex_env = ''/''" by (simp add: sep_def ex_env_def)
  have 0: "manifest_desktop_js (customizeJson ex_env ''1'' ''d'' ex_resp) ! 0 = ''d/desktop/js/a.js''"
    using t l(1) s by (simp add: ex_resp_def)
  have 1: "manifest_desktop_js (customizeJson ex_env ''1'' ''d'' ex_resp) ! 1 = ''https://cdn/x.js''"
    using t l(2) s by (simp add: ex_resp_def)
  have 2: "manifest_desktop_css (customizeJson ex_env ''1'' ''d'' ex_resp) ! 0 = ''d/desktop/css/b.css''"
    using t l(3) s by (simp add: ex_resp_def)
  have 3: "pending (snd (exportAsManifestFile ex_env ''1'' ''d'' ex_resp ex_world))
       = pending ex_world @ [WriteFile (''d'' @ sep ex_env @ ''customize-manifest.json'')
            (JSON_stringify (manifest_json (customizeJson ex_env ''1'' ''d'' ex_resp)) 4)]"
    using t r by blast
  then have 4: "pending (snd (exportAsManifestFile ex_env ''1'' ''d'' ex_resp ex_world))
       = [WriteFile ''d/customize-manifest.json''
            (JSON_stringify (manifest_json (customizeJson ex_env ''1'' ''d'' ex_resp)) 4)]"
    using s by (simp add: ex_world_def)
  from l r 0 1 2 4 show ?thesis by blast
qed

text \<open>\<^verbatim>\<open>JSON.stringify\<close> with 4 spaces produces the specified layout.\<close>

lemma SerializeJSON_string_array:
  "SerializeJSON (spaces 4) (spaces n) (JArray (map JString xs)) = spec_array_text n xs"
proof -
  have "map (SerializeJSON (spaces 4) (spaces n @ spaces 4)) (map JString xs)
          = map QuoteJSONString xs"
    by simp
  moreover have "spaces n @ spaces 4 = spaces (n + 4)"
    by (simp add: spaces_def replicate_add)
  moreover have "spaces 4 \<noteq> []" by (simp add: spaces_def)
  ultimately show ?thesis
    by (simp add: spec_array_text_def Let_def del: map_map)
qed

lemma JSON_stringify_manifest:
  "JSON_stringify (manifest_json m) 4 = spec_manifest_text m"
proof -
  have g: "replicate (min 10 4) CHR '' '' = spaces 4" by (simp add: spaces_def)
  have s: "[] @ spaces 4 = spaces 4" "spaces 4 @ spaces 4 = spaces 8" "spaces 4 \<noteq> []"
    by (simp_all add: spaces_def replicate_add [symmetric])
  show ?thesis
    unfolding JSON_stringify_def manifest_json_def g
    by (simp add: Let_def s SerializeJSON_string_array spec_manifest_text_def
        del: replicate_Suc SerializeJSON.simps(2))
qed


lemma manifest_text_example:
  "spec_manifest_text (customizeJson ex_env ''1'' ''d'' ex_resp) =
     join [CHR 0x0A]
       [''{'',
        ''    '' @ QuoteJSONString ''app'' @ '': '' @ QuoteJSONString ''1'' @ '','',
        ''    '' @ QuoteJSONString ''scope'' @ '': '' @ QuoteJSONString ''ALL'' @ '','',
        ''    '' @ QuoteJSONString ''desktop'' @ '': {'',
        ''        '' @ QuoteJSONString ''js'' @ '': ['',
        ''            '' @ QuoteJSONString ''d/desktop/js/a.js'' @ '','',
        ''            '' @ QuoteJSONString ''https://cdn/x.js'',
        ''        ],'',
        ''        '' @ QuoteJSONString ''css'' @ '': ['',
        ''            '' @ QuoteJSONString ''d/desktop/css/b.css'',
        ''        ]'',
        ''    },'',
        ''    '' @ QuoteJSONString ''mobile'' @ '': {'',
        ''        '' @ QuoteJSONString ''js'' @ '': []'',
        ''    }'',
        ''}'']"
  by code_simp

text \<open>
  Claim C5. \<^verbatim>\<open>exportAsManifestFile\<close> makes sure that the destination directory
  exists, creating it with every directory above it when it is missing, before the write
  is started; it writes the manifest as 4-space-indented JSON text to
  \<^verbatim>\<open>customize-manifest.json\<close> in that directory, and the completed write replaces
  whatever the file held.
\<close>

theorem manifest_file_is_written:
  assumes "existsSync env w d \<or> mkdirp_error env d = None"
  shows "\<exists>w'. exportAsManifestFile env appId d resp w = (Inr resp, w')
     \<and> existsSync env w' d
     \<and> (\<not> existsSync env w d \<longrightarrow>
           realpath env ` set (path_ancestors (sep_char (platform env)) d) \<subseteq> dirs w'
           \<and> realpath env d \<in> dirs w')
     \<and> files w' = files w
     \<and> pending w' = pending w @
           [WriteFile (d @ sep env @ ''customize-manifest.json'')
              (spec_manifest_text (customizeJson env appId d resp))]
     \<and> (\<forall>v. writeFile_error env (d @ sep env @ ''customize-manifest.json'') = None \<longrightarrow>
           files (complete env
                    (WriteFile (d @ sep env @ ''customize-manifest.json'')
                       (spec_manifest_text (customizeJson env appId d resp))) v)
             (realpath env (d @ sep env @ ''customize-manifest.json''))
           = Some (spec_manifest_text (customizeJson env appId d resp)))"
proof (cases "existsSync env w d")
  case True
  then show ?thesis
    by (simp add: exportAsManifestFile_def JSON_stringify_manifest existsSync_def
        writeFile_done_def)
next
  case False
  with assms have "mkdirp_error env d = None" by simp
  with False show ?thesis
    by (auto simp add: exportAsManifestFile_def JSON_stringify_manifest existsSync_def
        mkdirp_sync_def writeFile_done_def)
qed

theorem manifest_file_is_written_witness:
  "mkdirp_error ex_env ''d'' = None
   \<and> \<not> existsSync ex_env ex_world ''d''
   \<and> writeFile_error ex_env ''d/customize-manifest.json'' = None
   \<and> fst (exportAsManifestFile ex_env ''1'' ''d'' ex_resp ex_world) = Inr ex_resp
   \<and> existsSync ex_env (snd (exportAsManifestFile ex_env ''1'' ''d'' ex_resp ex_world)) ''d''
   \<and> pending (snd (exportAsManifestFile ex_env ''1'' ''d'' ex_resp ex_world)) =
       [WriteFile ''d/customize-manifest.json''
          (spec_manifest_text (customizeJson ex_env ''1'' ''d'' ex_resp))]
   \<and> files (complete ex_env
              (WriteFile ''d/customize-manifest.json''
                 (spec_manifest_text (customizeJson ex_env ''1'' ''d'' ex_resp)))
              (ex_world\<lparr>files := [''d/customize-manifest.json'' \<mapsto> ''old'']\<rparr>))
        ''d/customize-manifest.json''
      = Some (spec_manifest_text (customizeJson ex_env ''1'' ''d'' ex_resp))"
proof -
  have h: "existsSync ex_env ex_world ''d'' \<or> mkdirp_error ex_env ''d'' = None"
    by (simp add: ex_env_def)
  have n: "\<not> existsSync ex_env ex_world ''d''" by (simp add: existsSync_def ex_world_def)
  have e: "writeFile_error ex_env ''d/customize-manifest.json'' = None"
    "mkdirp_error ex_env ''d'' = None" "sep ex_env = ''/''" "pending ex_world = []"
    "realpath ex_env ''d/customize-manifest.json'' = ''d/customize-manifest.json''"
    by (simp_all add: ex_env_def sep_def ex_world_def)
  from manifest_file_is_written [OF h, of "''1''" ex_resp] e n show ?thesis
    by auto
qed

text \<open>
  Claim C7. A failure to write \<^verbatim>\<open>customize-manifest.json\<close> is fatal and reaches
  \<^verbatim>\<open>importCustomizeSetting\<close>, where it is handled as a failed fetch is.

  The callback of \<^verbatim>\<open>fs.writeFile\<close> throws the error when the write has failed,
  outside the promise chain: with a manifest file that cannot be written,
  \<^verbatim>\<open>importCustomizeSetting\<close> is fulfilled after one fetch and both downloads, nothing
  is retried, the error ends as an uncaught exception and the file is not there.
\<close>

theorem manifest_write_failure_is_not_propagated:
  "writeFile_error ex_env_eacces ''d/customize-manifest.json'' = Some (Error ''EACCES'')
   \<and> realpath ex_env_eacces ''d/customize-manifest.json'' = ''d/customize-manifest.json''
   \<and> fst (importCustomizeSetting ex_env_eacces ex_manifest 0 ex_options ex_world) = Fulfilled ()
   \<and> trace (snd (importCustomizeSetting ex_env_eacces ex_manifest 0 ex_options ex_world))
       = [Fetch ''1'', Download ''k1'', Download ''k2'']
   \<and> uncaught (event_loop ex_env_eacces
         (pending (snd (importCustomizeSetting ex_env_eacces ex_manifest 0 ex_options ex_world)))
         (snd (importCustomizeSetting ex_env_eacces ex_manifest 0 ex_options ex_world)))
       = [Error ''EACCES'']
   \<and> files (event_loop ex_env_eacces
         (pending (snd (importCustomizeSetting ex_env_eacces ex_manifest 0 ex_options ex_world)))
         (snd (importCustomizeSetting ex_env_eacces ex_manifest 0 ex_options ex_world)))
         ''d/customize-manifest.json'' = None"
  by (simp add: importCustomizeSetting.simps Let_def ex_env_eacces_def ex_defs run_defs
      event_loop_def writeFile_done_def)

section \<open>The asset downloader\<close>

lemma path_ancestors_parent:
  assumes "x \<noteq> []"
  shows "x \<in> set (path_ancestors c (x @ [c]))"
proof -
  have "length x \<in> set (filter (\<lambda>i. (x @ [c]) ! i = c) [1..<length (x @ [c])])"
    using assms by (cases x) simp_all
  moreover have "take (length x) (x @ [c]) = x" by simp
  ultimately show ?thesis
    unfolding path_ancestors_def by (metis (no_types, lifting) image_eqI set_map)
qed

lemma download_count_emit [simp]:
  "download_count (emit (Download k) w) = Suc (download_count w)"
  by (simp add: download_count_def)

lemma downloads_into_Nil [simp]: "downloads_into env dir c [] []"
  by (simp add: downloads_into_def)

lemma downloads_into_Cons:
  assumes "downloadFile env c k = Returns p"
    and "downloads_into env dir (Suc c) entries ts"
  shows "downloads_into env dir c ((k, n) # entries) (ThenWriteFile p (dir @ sep env @ n) # ts)"
  unfolding downloads_into_def
proof (intro conjI allI impI)
  show "length (ThenWriteFile p (dir @ sep env @ n) # ts) = length ((k, n) # entries)"
    using assms(2) by (simp add: downloads_into_def)
next
  fix j q
  assume j: "j < length ((k, n) # entries)"
    and q: "downloadFile env (c + j) (fst (((k, n) # entries) ! j)) = Returns q"
  show "(ThenWriteFile p (dir @ sep env @ n) # ts) ! j
          = ThenWriteFile q (dir @ sep env @ snd (((k, n) # entries) ! j))"
  proof (cases j)
    case 0
    with q assms(1) show ?thesis by simp
  next
    case (Suc i)
    with j q assms(2) show ?thesis by (simp add: downloads_into_def)
  qed
qed

lemma downloadAndWriteFile_CDNFile:
  "downloadAndWriteFile env dir (CDNFile url) w = (Inr (), w)"
  by (simp add: downloadAndWriteFile_def)

lemma downloadAndWriteFile_UploadedFile:
  assumes "downloadFile env (download_count w) k = Returns p"
  shows "downloadAndWriteFile env dir (UploadedFile k n) w =
           (Inr (), (emit (Download k) w)
                      \<lparr>pending := pending w @ [ThenWriteFile p (dir @ sep env @ n)]\<rparr>)"
  using assms by (simp add: downloadAndWriteFile_def)

lemma forEach_downloadAndWriteFile:
  assumes nothrow: "\<forall>i k e. downloadFile env i k \<noteq> Throws e"
  shows "\<exists>ts. forEach (downloadAndWriteFile env dir) xs w =
            (Inr (), w\<lparr>trace := trace w @ map (Download \<circ> fst) (uploaded xs),
                       pending := pending w @ ts\<rparr>)
          \<and> downloads_into env dir (download_count w) (uploaded xs) ts"
proof (induction xs arbitrary: w)
  case Nil
  show ?case by (intro exI [of _ "[]"]) simp
next
  case (Cons x xs)
  show ?case
  proof (cases x)
    case (CDNFile url)
    have e: "forEach (downloadAndWriteFile env dir) (x # xs) w
               = forEach (downloadAndWriteFile env dir) xs w"
      and u: "uploaded (x # xs) = uploaded xs"
      using CDNFile by (simp_all add: and_then_def downloadAndWriteFile_CDNFile)
    show ?thesis unfolding e u by (rule Cons.IH)
  next
    case (UploadedFile k n)
    obtain p where p: "downloadFile env (download_count w) k = Returns p"
      using nothrow by (cases "downloadFile env (download_count w) k") auto
    let ?w1 = "(emit (Download k) w)\<lparr>pending := pending w @ [ThenWriteFile p (dir @ sep env @ n)]\<rparr>"
    have c1: "download_count ?w1 = Suc (download_count w)"
      by (simp add: download_count_def)
    from Cons.IH [of ?w1] obtain ts where
      r: "forEach (downloadAndWriteFile env dir) xs ?w1 =
            (Inr (), ?w1\<lparr>trace := trace ?w1 @ map (Download \<circ> fst) (uploaded xs),
                       pending := pending ?w1 @ ts\<rparr>)"
      and d: "downloads_into env dir (download_count ?w1) (uploaded xs) ts" by blast
    have "downloads_into env dir (download_count w) (uploaded (x # xs))
            (ThenWriteFile p (dir @ sep env @ n) # ts)"
      using p d UploadedFile by (simp add: c1 downloads_into_Cons)
    moreover have "forEach (downloadAndWriteFile env dir) (x # xs) w =
            (Inr (), w\<lparr>trace := trace w @ map (Download \<circ> fst) (uploaded (x # xs)),
                       pending := pending w @ ThenWriteFile p (dir @ sep env @ n) # ts\<rparr>)"
      using r UploadedFile
      by (simp add: and_then_def downloadAndWriteFile_UploadedFile [OF p] emit_def)
    ultimately show ?thesis by blast
  qed
qed


lemma download_count_dirs [simp]: "download_count (w\<lparr>dirs := D\<rparr>) = download_count w"
  by (simp add: download_count_def)

lemma download_count_after:
  "download_count (w\<lparr>trace := trace w @ map (Download \<circ> fst) es, pending := ps\<rparr>)
     = download_count w + length es"
  by (simp add: download_count_def)

lemma mkdirp_three:
  assumes "mkdirp_error env (x @ sep env) = None"
    and "mkdirp_error env (y @ sep env) = None"
    and "mkdirp_error env (z @ sep env) = None"
    and "x \<noteq> []" "y \<noteq> []" "z \<noteq> []"
  shows "\<exists>D. forEach (mkdirp_sync env) [x @ sep env, y @ sep env, z @ sep env] w
              = (Inr (), w\<lparr>dirs := D\<rparr>)
            \<and> dirs w \<union> realpath env ` {x, y, z} \<subseteq> D"
proof -
  let ?c = "sep_char (platform env)"
  have "x \<in> set (path_ancestors ?c (x @ [?c]))" "y \<in> set (path_ancestors ?c (y @ [?c]))"
    "z \<in> set (path_ancestors ?c (z @ [?c]))"
    using assms(4-6) by (simp_all add: path_ancestors_parent)
  then show ?thesis
    using assms(1-3) by (auto simp: and_then_def mkdirp_sync_def sep_def)
qed

lemma mkdirp_three_fails:
  assumes "mkdirp_error env x \<noteq> None \<or> mkdirp_error env y \<noteq> None \<or> mkdirp_error env z \<noteq> None"
  shows "\<exists>e D. forEach (mkdirp_sync env) [x, y, z] w = (Inl e, w\<lparr>dirs := D\<rparr>)"
proof (cases "mkdirp_error env x")
  case (Some e)
  then have "forEach (mkdirp_sync env) [x, y, z] w = (Inl e, w\<lparr>dirs := dirs w\<rparr>)"
    by (simp add: and_then_def mkdirp_sync_def)
  then show ?thesis by blast
next
  case None
  note nx = this
  show ?thesis
  proof (cases "mkdirp_error env y")
    case (Some e)
    with nx have "\<exists>D. forEach (mkdirp_sync env) [x, y, z] w = (Inl e, w\<lparr>dirs := D\<rparr>)"
      by (auto simp add: and_then_def mkdirp_sync_def)
    then show ?thesis by blast
  next
    case None
    with nx assms obtain e where "mkdirp_error env z = Some e" by auto
    with nx None have "\<exists>D. forEach (mkdirp_sync env) [x, y, z] w = (Inl e, w\<lparr>dirs := D\<rparr>)"
      by (auto simp add: and_then_def mkdirp_sync_def)
    then show ?thesis by blast
  qed
qed

lemma downloads_into_single:
  assumes "downloads_into env dir c [(k, n)] ts" and "downloadFile env c k = Returns p"
  shows "ts = [ThenWriteFile p (dir @ sep env @ n)]"
proof -
  from assms(1) have l: "length ts = 1" by (simp add: downloads_into_def)
  from assms have "ts ! 0 = ThenWriteFile p (dir @ sep env @ n)"
    by (simp add: downloads_into_def)
  with l show ?thesis by (cases ts) simp_all
qed

lemma downloads_into_none: "downloads_into env dir c [] ts \<Longrightarrow> ts = []"
  by (simp add: downloads_into_def)

lemma downloadCustomizeFiles_succeeds:
  fixes env d resp w appId
  defines "js \<equiv> d @ sep env @ ''desktop'' @ sep env @ ''js''"
    and "css \<equiv> d @ sep env @ ''desktop'' @ sep env @ ''css''"
    and "mjs \<equiv> d @ sep env @ ''mobile'' @ sep env @ ''js''"
  assumes mk: "mkdirp_error env (js @ sep env) = None" "mkdirp_error env (css @ sep env) = None"
      "mkdirp_error env (mjs @ sep env) = None"
    and nothrow: "\<forall>i k e. downloadFile env i k \<noteq> Throws e"
  shows "\<exists>D t1 t2 t3.
      downloadCustomizeFiles env appId d resp w =
        (Inr (),
         w\<lparr>dirs := D,
           trace := trace w @ map (Download \<circ> fst)
             (uploaded (desktop_js resp) @ uploaded (desktop_css resp)
                @ uploaded (mobile_js resp)),
           pending := pending w @ t1 @ t2 @ t3\<rparr>)
      \<and> dirs w \<union> realpath env ` {js, css, mjs} \<subseteq> D
      \<and> downloads_into env js (download_count w) (uploaded (desktop_js resp)) t1
      \<and> downloads_into env css
           (download_count w + length (uploaded (desktop_js resp)))
           (uploaded (desktop_css resp)) t2
      \<and> downloads_into env mjs
           (download_count w + length (uploaded (desktop_js resp))
              + length (uploaded (desktop_css resp)))
           (uploaded (mobile_js resp)) t3"
proof -
  have ne: "js \<noteq> []" "css \<noteq> []" "mjs \<noteq> []"
    by (simp_all add: js_def css_def mjs_def)
  from mk ne obtain D where
    m: "forEach (mkdirp_sync env) [js @ sep env, css @ sep env, mjs @ sep env] w
          = (Inr (), w\<lparr>dirs := D\<rparr>)"
    and D: "dirs w \<union> realpath env ` {js, css, mjs} \<subseteq> D"
    using mkdirp_three [of env js css mjs w] by blast
  let ?w0 = "w\<lparr>dirs := D\<rparr>"
  let ?e1 = "uploaded (desktop_js resp)"
  let ?e2 = "uploaded (desktop_css resp)"
  let ?e3 = "uploaded (mobile_js resp)"
  obtain t1 where
    r1: "forEach (downloadAndWriteFile env js) (desktop_js resp) ?w0 =
           (Inr (), ?w0\<lparr>trace := trace ?w0 @ map (Download \<circ> fst) ?e1,
                          pending := pending ?w0 @ t1\<rparr>)"
    and d1: "downloads_into env js (download_count ?w0) ?e1 t1"
    using forEach_downloadAndWriteFile [OF nothrow] by blast
  let ?w1 = "?w0\<lparr>trace := trace ?w0 @ map (Download \<circ> fst) ?e1, pending := pending ?w0 @ t1\<rparr>"
  obtain t2 where
    r2: "forEach (downloadAndWriteFile env css) (desktop_css resp) ?w1 =
           (Inr (), ?w1\<lparr>trace := trace ?w1 @ map (Download \<circ> fst) ?e2,
                          pending := pending ?w1 @ t2\<rparr>)"
    and d2: "downloads_into env css (download_count ?w1) ?e2 t2"
    using forEach_downloadAndWriteFile [OF nothrow] by blast
  let ?w2 = "?w1\<lparr>trace := trace ?w1 @ map (Download \<circ> fst) ?e2, pending := pending ?w1 @ t2\<rparr>"
  obtain t3 where
    r3: "forEach (downloadAndWriteFile env mjs) (mobile_js resp) ?w2 =
           (Inr (), ?w2\<lparr>trace := trace ?w2 @ map (Download \<circ> fst) ?e3,
                          pending := pending ?w2 @ t3\<rparr>)"
    and d3: "downloads_into env mjs (download_count ?w2) ?e3 t3"
    using forEach_downloadAndWriteFile [OF nothrow] by blast
  let ?w3 = "?w2\<lparr>trace := trace ?w2 @ map (Download \<circ> fst) ?e3, pending := pending ?w2 @ t3\<rparr>"
  have run: "downloadCustomizeFiles env appId d resp w = (Inr (), ?w3)"
    unfolding downloadCustomizeFiles_def
    using m r1 r2 r3
    by (simp add: and_then_def js_def css_def mjs_def del: forEach.simps)
  have c1: "download_count ?w0 = download_count w" by simp
  have c2: "download_count ?w1 = download_count w + length ?e1"
    by (simp add: download_count_def)
  have c3: "download_count ?w2 = download_count w + length ?e1 + length ?e2"
    by (simp add: download_count_def)
  show ?thesis
    using run D d1 d2 d3 unfolding c1 c2 c3
    by (intro exI [of _ D] exI [of _ t1] exI [of _ t2] exI [of _ t3]) simp
qed

text \<open>
  Claim C6. \<^verbatim>\<open>downloadCustomizeFiles\<close> first creates the directories
  \<^verbatim>\<open>desktop/js\<close>, \<^verbatim>\<open>desktop/css\<close> and \<^verbatim>\<open>mobile/js\<close> under the destination: when
  one of them cannot be created, no file is requested and no write is started. Then the
  calls of \<^verbatim>\<open>downloadFile\<close> and the writes that are started are those of the uploaded
  files of the three lists, in order, each write to the display name in the directory of
  its list; a URL entry causes neither. A completed write of a downloaded file replaces
  whatever the file held.
\<close>

theorem asset_files_are_downloaded:
  fixes env d resp w appId
  defines "js \<equiv> d @ sep env @ ''desktop'' @ sep env @ ''js''"
    and "css \<equiv> d @ sep env @ ''desktop'' @ sep env @ ''css''"
    and "mjs \<equiv> d @ sep env @ ''mobile'' @ sep env @ ''js''"
  shows
   "(mkdirp_error env (js @ sep env) \<noteq> None \<or> mkdirp_error env (css @ sep env) \<noteq> None
       \<or> mkdirp_error env (mjs @ sep env) \<noteq> None \<longrightarrow>
      (\<exists>e w'. downloadCustomizeFiles env appId d resp w = (Inl e, w')
         \<and> trace w' = trace w \<and> pending w' = pending w \<and> files w' = files w))
    \<and> (mkdirp_error env (js @ sep env) = None \<and> mkdirp_error env (css @ sep env) = None
       \<and> mkdirp_error env (mjs @ sep env) = None
       \<and> (\<forall>i k e. downloadFile env i k \<noteq> Throws e) \<longrightarrow>
      (\<exists>w' t1 t2 t3. downloadCustomizeFiles env appId d resp w = (Inr (), w')
         \<and> dirs w \<union> realpath env ` {js, css, mjs} \<subseteq> dirs w'
         \<and> files w' = files w
         \<and> trace w' = trace w @ map (Download \<circ> fst)
               (uploaded (desktop_js resp) @ uploaded (desktop_css resp)
                  @ uploaded (mobile_js resp))
         \<and> pending w' = pending w @ t1 @ t2 @ t3
         \<and> downloads_into env js (download_count w) (uploaded (desktop_js resp)) t1
         \<and> downloads_into env css
              (download_count w + length (uploaded (desktop_js resp)))
              (uploaded (desktop_css resp)) t2
         \<and> downloads_into env mjs
              (download_count w + length (uploaded (desktop_js resp))
                 + length (uploaded (desktop_css resp)))
              (uploaded (mobile_js resp)) t3))
    \<and> (\<forall>data path v. writeFile_error env path = None \<longrightarrow>
          files (complete env (ThenWriteFile (Fulfilled data) path) v) (realpath env path)
            = Some data)"
proof (intro conjI impI allI)
  assume "mkdirp_error env (js @ sep env) \<noteq> None \<or> mkdirp_error env (css @ sep env) \<noteq> None
       \<or> mkdirp_error env (mjs @ sep env) \<noteq> None"
  then obtain e D where
    "forEach (mkdirp_sync env) [js @ sep env, css @ sep env, mjs @ sep env] w
       = (Inl e, w\<lparr>dirs := D\<rparr>)"
    using mkdirp_three_fails by blast
  then have "downloadCustomizeFiles env appId d resp w = (Inl e, w\<lparr>dirs := D\<rparr>)"
    unfolding downloadCustomizeFiles_def js_def css_def mjs_def
    by (simp add: and_then_def del: forEach.simps)
  then show "\<exists>e w'. downloadCustomizeFiles env appId d resp w = (Inl e, w')
         \<and> trace w' = trace w \<and> pending w' = pending w \<and> files w' = files w"
    by simp
next
  assume a: "mkdirp_error env (js @ sep env) = None \<and> mkdirp_error env (css @ sep env) = None
       \<and> mkdirp_error env (mjs @ sep env) = None
       \<and> (\<forall>i k e. downloadFile env i k \<noteq> Throws e)"
  then have "\<exists>D t1 t2 t3.
      downloadCustomizeFiles env appId d resp w =
        (Inr (),
         w\<lparr>dirs := D,
           trace := trace w @ map (Download \<circ> fst)
             (uploaded (desktop_js resp) @ uploaded (desktop_css resp)
                @ uploaded (mobile_js resp)),
           pending := pending w @ t1 @ t2 @ t3\<rparr>)
      \<and> dirs w \<union> realpath env ` {js, css, mjs} \<subseteq> D
      \<and> downloads_into env js (download_count w) (uploaded (desktop_js resp)) t1
      \<and> downloads_into env css
           (download_count w + length (uploaded (desktop_js resp)))
           (uploaded (desktop_css resp)) t2
      \<and> downloads_into env mjs
           (download_count w + length (uploaded (desktop_js resp))
              + length (uploaded (desktop_css resp)))
           (uploaded (mobile_js resp)) t3"
    unfolding js_def css_def mjs_def
    by (intro downloadCustomizeFiles_succeeds) simp_all
  then obtain D t1 t2 t3 where
    run: "downloadCustomizeFiles env appId d resp w =
        (Inr (),
         w\<lparr>dirs := D,
           trace := trace w @ map (Download \<circ> fst)
             (uploaded (desktop_js resp) @ uploaded (desktop_css resp)
                @ uploaded (mobile_js resp)),
           pending := pending w @ t1 @ t2 @ t3\<rparr>)"
    and D: "dirs w \<union> realpath env ` {js, css, mjs} \<subseteq> D"
    and d1: "downloads_into env js (download_count w) (uploaded (desktop_js resp)) t1"
    and d2: "downloads_into env css
           (download_count w + length (uploaded (desktop_js resp)))
           (uploaded (desktop_css resp)) t2"
    and d3: "downloads_into env mjs
           (download_count w + length (uploaded (desktop_js resp))
              + length (uploaded (desktop_css resp)))
           (uploaded (mobile_js resp)) t3"
    by (elim exE conjE)
  show "\<exists>w' t1 t2 t3. downloadCustomizeFiles env appId d resp w = (Inr (), w')
         \<and> dirs w \<union> realpath env ` {js, css, mjs} \<subseteq> dirs w'
         \<and> files w' = files w
         \<and> trace w' = trace w @ map (Download \<circ> fst)
               (uploaded (desktop_js resp) @ uploaded (desktop_css resp)
                  @ uploaded (mobile_js resp))
         \<and> pending w' = pending w @ t1 @ t2 @ t3
         \<and> downloads_into env js (download_count w) (uploaded (desktop_js resp)) t1
         \<and> downloads_into env css
              (download_count w + length (uploaded (desktop_js resp)))
              (uploaded (desktop_css resp)) t2
         \<and> downloads_into env mjs
              (download_count w + length (uploaded (desktop_js resp))
                 + length (uploaded (desktop_css resp)))
              (uploaded (mobile_js resp)) t3"
    using run D d1 d2 d3 by fastforce
next
  fix data path v
  assume "writeFile_error env path = None"
  then show "files (complete env (ThenWriteFile (Fulfilled data) path) v) (realpath env path)
               = Some data"
    by (simp add: writeFile_done_def)
qed


theorem asset_files_are_downloaded_witness:
  "mkdirp_error ex_env ''d/desktop/js/'' = None
   \<and> mkdirp_error ex_env ''d/desktop/css/'' = None
   \<and> mkdirp_error ex_env ''d/mobile/js/'' = None
   \<and> (\<forall>i k e. downloadFile ex_env i k \<noteq> Throws e)
   \<and> writeFile_error ex_env ''d/desktop/js/a.js'' = None
   \<and> fst (downloadCustomizeFiles ex_env ''1'' ''d'' ex_resp ex_world) = Inr ()
   \<and> {''d/desktop/js'', ''d/desktop/css'', ''d/mobile/js''}
        \<subseteq> dirs (snd (downloadCustomizeFiles ex_env ''1'' ''d'' ex_resp ex_world))
   \<and> trace (snd (downloadCustomizeFiles ex_env ''1'' ''d'' ex_resp ex_world))
        = [Download ''k1'', Download ''k2'']
   \<and> pending (snd (downloadCustomizeFiles ex_env ''1'' ''d'' ex_resp ex_world))
        = [ThenWriteFile (Fulfilled ''data of k1'') ''d/desktop/js/a.js'',
           ThenWriteFile (Fulfilled ''data of k2'') ''d/desktop/css/b.css'']
   \<and> files (complete ex_env (ThenWriteFile (Fulfilled ''data of k1'') ''d/desktop/js/a.js'')
               (ex_world\<lparr>files := [''d/desktop/js/a.js'' \<mapsto> ''old'']\<rparr>))
        ''d/desktop/js/a.js'' = Some ''data of k1''"
proof -
  have s: "sep ex_env = ''/''" by (simp add: sep_def ex_env_def)
  have mk: "mkdirp_error ex_env ''d/desktop/js/'' = None"
    "mkdirp_error ex_env ''d/desktop/css/'' = None"
    "mkdirp_error ex_env ''d/mobile/js/'' = None"
    by (simp_all add: ex_env_def)
  have nt: "\<forall>i k e. downloadFile ex_env i k \<noteq> Throws e" by (simp add: ex_env_def)
  have wr: "writeFile_error ex_env ''d/desktop/js/a.js'' = None" by (simp add: ex_env_def)
  have up: "uploaded (desktop_js ex_resp) = [(''k1'', ''a.js'')]"
    "uploaded (desktop_css ex_resp) = [(''k2'', ''b.css'')]"
    "uploaded (mobile_js ex_resp) = []"
    by (simp_all add: ex_resp_def)
  have dl: "\<And>i k. downloadFile ex_env i k = Returns (Fulfilled (''data of '' @ k))"
    by (simp add: ex_env_def)
  have w0: "trace ex_world = []" "pending ex_world = []" by (simp_all add: ex_world_def)
  have rp: "\<And>p. realpath ex_env p = p" by (simp add: ex_env_def)
  note t = asset_files_are_downloaded
    [where env = ex_env and d = "''d''" and w = ex_world and appId = "''1''" and resp = ex_resp]
  from t mk nt obtain w' t1 t2 t3 where
    run: "downloadCustomizeFiles ex_env ''1'' ''d'' ex_resp ex_world = (Inr (), w')"
    and di: "{''d/desktop/js'', ''d/desktop/css'', ''d/mobile/js''} \<subseteq> dirs w'"
    and tr: "trace w' = [Download ''k1'', Download ''k2'']"
    and pe: "pending w' = t1 @ t2 @ t3"
    and d1: "downloads_into ex_env ''d/desktop/js'' (download_count ex_world) [(''k1'', ''a.js'')] t1"
    and d2: "downloads_into ex_env ''d/desktop/css'' (download_count ex_world + 1) [(''k2'', ''b.css'')] t2"
    and d3: "downloads_into ex_env ''d/mobile/js'' (download_count ex_world + 1 + 1) [] t3"
    unfolding s up w0 rp by auto
  have "t1 = [ThenWriteFile (Fulfilled ''data of k1'') ''d/desktop/js/a.js'']"
    using downloads_into_single [OF d1 dl] s by simp
  moreover have "t2 = [ThenWriteFile (Fulfilled ''data of k2'') ''d/desktop/css/b.css'']"
    using downloads_into_single [OF d2 dl] s by simp
  moreover have "t3 = []" using d3 by (rule downloads_into_none)
  ultimately have pe': "pending w'
        = [ThenWriteFile (Fulfilled ''data of k1'') ''d/desktop/js/a.js'',
           ThenWriteFile (Fulfilled ''data of k2'') ''d/desktop/css/b.css'']"
    using pe by simp
  from t wr have
    "files (complete ex_env (ThenWriteFile (Fulfilled ''data of k1'') ''d/desktop/js/a.js'')
               (ex_world\<lparr>files := [''d/desktop/js/a.js'' \<mapsto> ''old'']\<rparr>))
        (realpath ex_env ''d/desktop/js/a.js'') = Some ''data of k1''"
    by blast
  then have co:
    "files (complete ex_env (ThenWriteFile (Fulfilled ''data of k1'') ''d/desktop/js/a.js'')
               (ex_world\<lparr>files := [''d/desktop/js/a.js'' \<mapsto> ''old'']\<rparr>))
        ''d/desktop/js/a.js'' = Some ''data of k1''"
    unfolding rp .
  from mk nt wr run di tr pe' co show ?thesis by simp
qed

section \<open>Running the pipeline twice\<close>

lemma downloads_into_fulfilled:
  assumes dl: "\<forall>n k. downloadFile env n k = Returns (Fulfilled (content k))"
    and d: "downloads_into env dir c es ts"
  shows "ts = map (fulfilled_write env content dir) es"
proof (rule nth_equalityI)
  show "length ts = length (map (fulfilled_write env content dir) es)"
    using d by (simp add: downloads_into_def)
next
  fix j
  assume "j < length ts"
  then have j: "j < length es" using d by (simp add: downloads_into_def)
  then have "ts ! j = ThenWriteFile (Fulfilled (content (fst (es ! j)))) (dir @ sep env @ snd (es ! j))"
    using d dl by (simp add: downloads_into_def)
  with j show "ts ! j = map (fulfilled_write env content dir) es ! j"
    by (simp add: fulfilled_write_def)
qed


lemma exportAsManifestFile_succeeds:
  assumes "mkdirp_error env d = None"
  shows "\<exists>D. exportAsManifestFile env appId d resp w =
           (Inr resp,
            w\<lparr>dirs := D,
              pending := pending w @
                [WriteFile (d @ sep env @ ''customize-manifest.json'')
                   (JSON_stringify (manifest_json (customizeJson env appId d resp)) 4)]\<rparr>)"
proof (cases "existsSync env w d")
  case True
  then have "exportAsManifestFile env appId d resp w =
           (Inr resp,
            w\<lparr>dirs := dirs w,
              pending := pending w @
                [WriteFile (d @ sep env @ ''customize-manifest.json'')
                   (JSON_stringify (manifest_json (customizeJson env appId d resp)) 4)]\<rparr>)"
    by (simp add: exportAsManifestFile_def fs_writeFile_def)
  then show ?thesis by blast
next
  case False
  with assms have "exportAsManifestFile env appId d resp w =
           (Inr resp,
            w\<lparr>dirs := dirs w
                       \<union> realpath env ` (set (path_ancestors (sep_char (platform env)) d) \<union> {d}),
              pending := pending w @
                [WriteFile (d @ sep env @ ''customize-manifest.json'')
                   (JSON_stringify (manifest_json (customizeJson env appId d resp)) 4)]\<rparr>)"
    by (simp add: exportAsManifestFile_def fs_writeFile_def mkdirp_sync_def)
  then show ?thesis by blast
qed

lemma runImport_succeeds:
  assumes fetch: "\<forall>n. getAppCustomize env n (app manifest) = Returns (Fulfilled resp)"
    and dl: "\<forall>n k. downloadFile env n k = Returns (Fulfilled (content k))"
    and mk: "\<forall>p. mkdirp_error env p = None"
  shows "\<exists>v'. runImport env manifest options v = (Fulfilled (), v')
           \<and> pending v' = pending v @ all_tasks env content (app manifest) (destDir options) resp
           \<and> files v' = files v \<and> uncaught v' = uncaught v \<and> unhandled v' = unhandled v"
proof -
  let ?a = "app manifest" and ?d = "destDir options"
  let ?v0 = "v\<lparr>heap := heap v @ [\<lparr>retryCount = 0\<rparr>]\<rparr>"
  let ?v1 = "emit (Fetch ?a) ?v0"
  obtain D where
    ex: "exportAsManifestFile env ?a ?d resp ?v1 =
           (Inr resp,
            ?v1\<lparr>dirs := D,
              pending := pending ?v1 @
                [WriteFile (?d @ sep env @ ''customize-manifest.json'')
                   (JSON_stringify (manifest_json (customizeJson env ?a ?d resp)) 4)]\<rparr>)"
    using exportAsManifestFile_succeeds mk by blast
  let ?v2 = "?v1\<lparr>dirs := D,
              pending := pending ?v1 @
                [WriteFile (?d @ sep env @ ''customize-manifest.json'')
                   (JSON_stringify (manifest_json (customizeJson env ?a ?d resp)) 4)]\<rparr>"
  have nothrow: "\<forall>i k e. downloadFile env i k \<noteq> Throws e" using dl by simp
  obtain D' t1 t2 t3 where
    dc: "downloadCustomizeFiles env ?a ?d resp ?v2 =
        (Inr (),
         ?v2\<lparr>dirs := D',
           trace := trace ?v2 @ map (Download \<circ> fst)
             (uploaded (desktop_js resp) @ uploaded (desktop_css resp)
                @ uploaded (mobile_js resp)),
           pending := pending ?v2 @ t1 @ t2 @ t3\<rparr>)"
    and d1: "downloads_into env (?d @ sep env @ ''desktop'' @ sep env @ ''js'')
               (download_count ?v2) (uploaded (desktop_js resp)) t1"
    and d2: "downloads_into env (?d @ sep env @ ''desktop'' @ sep env @ ''css'')
               (download_count ?v2 + length (uploaded (desktop_js resp)))
               (uploaded (desktop_css resp)) t2"
    and d3: "downloads_into env (?d @ sep env @ ''mobile'' @ sep env @ ''js'')
               (download_count ?v2 + length (uploaded (desktop_js resp))
                  + length (uploaded (desktop_css resp)))
               (uploaded (mobile_js resp)) t3"
  proof -
    have "\<exists>D' t1 t2 t3. downloadCustomizeFiles env ?a ?d resp ?v2 =
        (Inr (),
         ?v2\<lparr>dirs := D',
           trace := trace ?v2 @ map (Download \<circ> fst)
             (uploaded (desktop_js resp) @ uploaded (desktop_css resp)
                @ uploaded (mobile_js resp)),
           pending := pending ?v2 @ t1 @ t2 @ t3\<rparr>)
      \<and> dirs ?v2 \<union> realpath env ` {?d @ sep env @ ''desktop'' @ sep env @ ''js'',
             ?d @ sep env @ ''desktop'' @ sep env @ ''css'',
             ?d @ sep env @ ''mobile'' @ sep env @ ''js''} \<subseteq> D'
      \<and> downloads_into env (?d @ sep env @ ''desktop'' @ sep env @ ''js'')
               (download_count ?v2) (uploaded (desktop_js resp)) t1
      \<and> downloads_into env (?d @ sep env @ ''desktop'' @ sep env @ ''css'')
               (download_count ?v2 + length (uploaded (desktop_js resp)))
               (uploaded (desktop_css resp)) t2
      \<and> downloads_into env (?d @ sep env @ ''mobile'' @ sep env @ ''js'')
               (download_count ?v2 + length (uploaded (desktop_js resp))
                  + length (uploaded (desktop_css resp)))
               (uploaded (mobile_js resp)) t3"
      by (rule downloadCustomizeFiles_succeeds) (simp_all add: mk nothrow)
    then show ?thesis using that by blast
  qed
  let ?v3 = "?v2\<lparr>dirs := D',
           trace := trace ?v2 @ map (Download \<circ> fst)
             (uploaded (desktop_js resp) @ uploaded (desktop_css resp)
                @ uploaded (mobile_js resp)),
           pending := pending ?v2 @ t1 @ t2 @ t3\<rparr>"
  have tb: "try_block env ?a options ?v0 = (Returns (Fulfilled ()), ?v3)"
    unfolding try_block_def using fetch ex dc
    by (simp add: then_promise_def catch_rethrow_def)
  have run: "runImport env manifest options v = (Fulfilled (), ?v3)"
    unfolding runImport_def
    by (subst importCustomizeSetting.simps) (simp add: tb Let_def)
  have ts: "t1 = map (fulfilled_write env content (?d @ sep env @ ''desktop'' @ sep env @ ''js''))
                   (uploaded (desktop_js resp))"
    "t2 = map (fulfilled_write env content (?d @ sep env @ ''desktop'' @ sep env @ ''css''))
                   (uploaded (desktop_css resp))"
    "t3 = map (fulfilled_write env content (?d @ sep env @ ''mobile'' @ sep env @ ''js''))
                   (uploaded (mobile_js resp))"
    using downloads_into_fulfilled [OF dl d1] downloads_into_fulfilled [OF dl d2]
      downloads_into_fulfilled [OF dl d3] by simp_all
  show ?thesis
    unfolding run by (intro exI [of _ ?v3]) (simp add: all_tasks_def ts)
qed


lemma complete_write:
  assumes "payload t = Some data" and "writeFile_error env (target t) = None"
  shows "complete env t v = v\<lparr>files := (files v)(realpath env (target t) \<mapsto> data)\<rparr>"
  using assms by (cases t rule: payload.cases) (simp_all add: writeFile_done_def)

lemma complete_commute:
  assumes "payload a \<noteq> None" "payload b \<noteq> None"
    and "\<forall>p. writeFile_error env p = None"
    and "realpath env (target a) \<noteq> realpath env (target b)"
  shows "complete env a (complete env b v) = complete env b (complete env a v)"
proof -
  from assms(1,2) obtain x y where "payload a = Some x" "payload b = Some y" by auto
  then show ?thesis
    using assms(3,4) by (simp add: complete_write fun_upd_twist)
qed

lemma fold_complete_order:
  assumes w: "\<forall>t \<in> set ts. payload t \<noteq> None"
    and e: "\<forall>p. writeFile_error env p = None"
    and d: "distinct (map (\<lambda>t. realpath env (target t)) ts)"
    and m: "mset order = mset ts"
  shows "fold (complete env) order = fold (complete env) ts"
proof (rule fold_multiset_equiv [OF _ m])
  fix a b
  assume "a \<in> set order" "b \<in> set order"
  then have ab: "a \<in> set ts" "b \<in> set ts" using m by (metis set_mset_mset)+
  show "complete env a \<circ> complete env b = complete env b \<circ> complete env a"
  proof (cases "a = b")
    case True
    then show ?thesis by simp
  next
    case False
    with ab d have "realpath env (target a) \<noteq> realpath env (target b)"
      by (meson distinct_map inj_onD)
    then show ?thesis
      using ab w e by (auto simp: fun_eq_iff intro: complete_commute)
  qed
qed

lemma fold_complete_files:
  assumes "\<forall>t \<in> set ts. payload t \<noteq> None"
    and e: "\<forall>p. writeFile_error env p = None"
  shows "files (fold (complete env) ts v) = files v ++ written env ts
         \<and> pending (fold (complete env) ts v) = pending v"
  using assms(1)
proof (induction ts arbitrary: v)
  case Nil
  show ?case by (simp add: written_def)
next
  case (Cons t ts)
  then obtain data where p: "payload t = Some data" by auto
  have c: "complete env t v = v\<lparr>files := (files v)(realpath env (target t) \<mapsto> data)\<rparr>"
    using p e by (simp add: complete_write)
  have "files (fold (complete env) ts (complete env t v))
          = files (complete env t v) ++ written env ts
        \<and> pending (fold (complete env) ts (complete env t v)) = pending (complete env t v)"
    using Cons by simp
  moreover have "(files v)(realpath env (target t) \<mapsto> data) ++ written env ts
                   = files v ++ written env (t # ts)"
    by (simp add: written_def p map_add_def fun_eq_iff split: option.splits)
  ultimately show ?case by (simp add: c)
qed

lemma map_add_twice: "(f ++ g) ++ g = f ++ g"
  by (simp add: map_add_def fun_eq_iff split: option.splits)


lemma all_tasks_payload:
  "\<forall>t \<in> set (all_tasks env content appId d resp). payload t \<noteq> None"
  by (auto simp: all_tasks_def fulfilled_write_def)

lemma all_tasks_targets:
  "map target (all_tasks env content appId d resp) =
     (d @ sep env @ ''customize-manifest.json'')
     # map (\<lambda>kn. d @ sep env @ ''desktop'' @ sep env @ ''js'' @ sep env @ snd kn)
         (uploaded (desktop_js resp))
     @ map (\<lambda>kn. d @ sep env @ ''desktop'' @ sep env @ ''css'' @ sep env @ snd kn)
         (uploaded (desktop_css resp))
     @ map (\<lambda>kn. d @ sep env @ ''mobile'' @ sep env @ ''js'' @ sep env @ snd kn)
         (uploaded (mobile_js resp))"
  by (simp add: all_tasks_def fulfilled_write_def comp_def)

lemma run_to_completion_files:
  assumes fetch: "\<forall>n. getAppCustomize env n (app manifest) = Returns (Fulfilled resp)"
    and dl: "\<forall>n k. downloadFile env n k = Returns (Fulfilled (content k))"
    and mk: "\<forall>p. mkdirp_error env p = None"
    and wr: "\<forall>p. writeFile_error env p = None"
    and apart: "distinct (map (realpath env)
        ((destDir options @ sep env @ ''customize-manifest.json'')
         # map (\<lambda>kn. destDir options @ sep env @ ''desktop'' @ sep env @ ''js'' @ sep env @ snd kn)
             (uploaded (desktop_js resp))
         @ map (\<lambda>kn. destDir options @ sep env @ ''desktop'' @ sep env @ ''css'' @ sep env @ snd kn)
             (uploaded (desktop_css resp))
         @ map (\<lambda>kn. destDir options @ sep env @ ''mobile'' @ sep env @ ''js'' @ sep env @ snd kn)
             (uploaded (mobile_js resp))))"
    and sched: "rearrangement s"
    and idle: "pending v = []"
  shows "files (run_to_completion env manifest options s v)
           = files v ++ written env (all_tasks env content (app manifest) (destDir options) resp)
         \<and> pending (run_to_completion env manifest options s v) = []"
proof -
  let ?ts = "all_tasks env content (app manifest) (destDir options) resp"
  obtain v' where run: "runImport env manifest options v = (Fulfilled (), v')"
    and p: "pending v' = ?ts" and f: "files v' = files v"
    using runImport_succeeds [OF fetch dl mk, of options v] idle by auto
  have m: "mset (s ?ts) = mset ?ts" using sched by (simp add: rearrangement_def)
  have "map (\<lambda>t. realpath env (target t)) ?ts = map (realpath env) (map target ?ts)"
    by simp
  then have d: "distinct (map (\<lambda>t. realpath env (target t)) ?ts)"
    using apart unfolding all_tasks_targets by simp
  have o: "fold (complete env) (s ?ts) = fold (complete env) ?ts"
    using all_tasks_payload wr d m by (rule fold_complete_order)
  have "run_to_completion env manifest options s v
          = fold (complete env) ?ts (v'\<lparr>pending := []\<rparr>)"
    by (simp add: run_to_completion_def run p event_loop_def o)
  then show ?thesis
    using fold_complete_files [OF all_tasks_payload wr, where v = "v'\<lparr>pending := []\<rparr>"] f
    by simp
qed

text \<open>
  Display names that differ do not keep two writes apart when they name one file: with
  the scripts \<^verbatim>\<open>a.js\<close> and \<^verbatim>\<open>./a.js\<close>, one run in the order of starting ends with
  the content of the second, and a second run in the opposite order with that of the
  first.
\<close>

lemma aliased_names_are_one_file:
  "distinct (map snd (uploaded (desktop_js ex_resp_alias)))
   \<and> files (run_to_completion ex_env_alias ex_manifest ex_options id ex_world)
        ''d/desktop/js/a.js'' = Some ''data of k2''
   \<and> files (run_to_completion ex_env_alias ex_manifest ex_options rev
              (run_to_completion ex_env_alias ex_manifest ex_options id ex_world))
        ''d/desktop/js/a.js'' = Some ''data of k1''"
  by (simp add: run_to_completion_def runImport_def
      importCustomizeSetting.simps Let_def ex_env_alias_def ex_resp_alias_def
      ex_defs run_defs event_loop_def writeFile_done_def)

text \<open>
  Claim C9. Running the pipeline twice against an unchanged remote configuration
  leaves the same manifest file and the same asset files as running it once.

  The writes of the downloaded files are started without being awaited, so they complete
  in any order, and two uploaded files of the same list with the same display name are
  written to the same file: the one run ends with the content of the second file when
  the writes complete in the order in which they were started, a second run ends with
  the content of the first when they complete in the opposite order.
\<close>

theorem completion_order_breaks_idempotence:
  "rearrangement id \<and> rearrangement rev
   \<and> getAppCustomize ex_env_same_name 0 ''1'' = Returns (Fulfilled ex_resp_same_name)
   \<and> getAppCustomize ex_env_same_name 1 ''1'' = Returns (Fulfilled ex_resp_same_name)
   \<and> files (run_to_completion ex_env_same_name ex_manifest ex_options id ex_world)
        ''d/desktop/js/a.js'' = Some ''data of k2''
   \<and> files (run_to_completion ex_env_same_name ex_manifest ex_options rev
              (run_to_completion ex_env_same_name ex_manifest ex_options id ex_world))
        ''d/desktop/js/a.js'' = Some ''data of k1''
   \<and> files (run_to_completion ex_env_same_name ex_manifest ex_options rev
              (run_to_completion ex_env_same_name ex_manifest ex_options id ex_world))
       \<noteq> files (run_to_completion ex_env_same_name ex_manifest ex_options id ex_world)"
proof -
  have r: "rearrangement id" "rearrangement rev"
    by (simp_all add: rearrangement_def)
  have g: "getAppCustomize ex_env_same_name 0 ''1'' = Returns (Fulfilled ex_resp_same_name)"
    "getAppCustomize ex_env_same_name 1 ''1'' = Returns (Fulfilled ex_resp_same_name)"
    by (simp_all add: ex_env_same_name_def)
  have once: "files (run_to_completion ex_env_same_name ex_manifest ex_options id ex_world)
        ''d/desktop/js/a.js'' = Some ''data of k2''"
    by (simp add: run_to_completion_def runImport_def
        importCustomizeSetting.simps Let_def ex_env_same_name_def ex_resp_same_name_def
        ex_defs run_defs event_loop_def writeFile_done_def)
  have twice: "files (run_to_completion ex_env_same_name ex_manifest ex_options rev
              (run_to_completion ex_env_same_name ex_manifest ex_options id ex_world))
        ''d/desktop/js/a.js'' = Some ''data of k1''"
    by (simp add: run_to_completion_def runImport_def
        importCustomizeSetting.simps Let_def ex_env_same_name_def ex_resp_same_name_def
        ex_defs run_defs event_loop_def writeFile_done_def)
  have "''data of k1'' \<noteq> ''data of k2''" by simp
  with once twice have
    "files (run_to_completion ex_env_same_name ex_manifest ex_options rev
              (run_to_completion ex_env_same_name ex_manifest ex_options id ex_world))
       \<noteq> files (run_to_completion ex_env_same_name ex_manifest ex_options id ex_world)"
    by (metis option.inject)
  with r g once twice show ?thesis by blast
qed

text \<open>
  Claim C9, amended. When every step of a run succeeds and the remote side does not
  change (each fetch is fulfilled with the same configuration, each download with the
  content of its file key, no directory creation and no write fails), no operation is
  outstanding at the start, and no two writes of a run go to the same file (the paths
  \<^verbatim>\<open>destDir/customize-manifest.json\<close> and, for every uploaded file,
  \<^verbatim>\<open>destDir/desktop/js/name\<close>, \<^verbatim>\<open>destDir/desktop/css/name\<close> or
  \<^verbatim>\<open>destDir/mobile/js/name\<close> name pairwise different files), then whatever the orders
  of completion, the files after two runs are the files after one run.
\<close>

theorem two_runs_leave_the_files_of_one:
  assumes fetch: "\<forall>n. getAppCustomize env n (app manifest) = Returns (Fulfilled resp)"
    and dl: "\<forall>n k. downloadFile env n k = Returns (Fulfilled (content k))"
    and mk: "\<forall>p. mkdirp_error env p = None"
    and wr: "\<forall>p. writeFile_error env p = None"
    and apart: "distinct (map (realpath env)
        ((destDir options @ sep env @ ''customize-manifest.json'')
         # map (\<lambda>kn. destDir options @ sep env @ ''desktop'' @ sep env @ ''js'' @ sep env @ snd kn)
             (uploaded (desktop_js resp))
         @ map (\<lambda>kn. destDir options @ sep env @ ''desktop'' @ sep env @ ''css'' @ sep env @ snd kn)
             (uploaded (desktop_css resp))
         @ map (\<lambda>kn. destDir options @ sep env @ ''mobile'' @ sep env @ ''js'' @ sep env @ snd kn)
             (uploaded (mobile_js resp))))"
    and sched: "rearrangement s1" "rearrangement s2" "rearrangement s3"
    and idle: "pending w = []"
  shows "files (run_to_completion env manifest options s2
                  (run_to_completion env manifest options s1 w))
         = files (run_to_completion env manifest options s3 w)"
proof -
  note r = run_to_completion_files [OF fetch dl mk wr apart]
  have 1: "files (run_to_completion env manifest options s1 w)
             = files w ++ written env (all_tasks env content (app manifest) (destDir options) resp)"
    and p1: "pending (run_to_completion env manifest options s1 w) = []"
    using r [OF sched(1) idle] by simp_all
  have 2: "files (run_to_completion env manifest options s2
                  (run_to_completion env manifest options s1 w))
             = files (run_to_completion env manifest options s1 w)
                 ++ written env (all_tasks env content (app manifest) (destDir options) resp)"
    using r [OF sched(2) p1] by simp
  have 3: "files (run_to_completion env manifest options s3 w)
             = files w ++ written env (all_tasks env content (app manifest) (destDir options) resp)"
    using r [OF sched(3) idle] by simp
  show ?thesis
    unfolding 2 1 3 by (rule map_add_twice)
qed

theorem two_runs_leave_the_files_of_one_witness:
  "(\<forall>n. getAppCustomize ex_env n (app ex_manifest) = Returns (Fulfilled ex_resp))
   \<and> (\<forall>n k. downloadFile ex_env n k = Returns (Fulfilled (''data of '' @ k)))
   \<and> (\<forall>p. mkdirp_error ex_env p = None) \<and> (\<forall>p. writeFile_error ex_env p = None)
   \<and> distinct (map (realpath ex_env)
        [''d/customize-manifest.json'', ''d/desktop/js/a.js'', ''d/desktop/css/b.css''])
   \<and> rearrangement id \<and> rearrangement rev \<and> pending ex_world = []
   \<and> files (run_to_completion ex_env ex_manifest ex_options rev
              (run_to_completion ex_env ex_manifest ex_options id ex_world))
      = files (run_to_completion ex_env ex_manifest ex_options rev ex_world)
   \<and> files (run_to_completion ex_env ex_manifest ex_options rev ex_world)
        ''d/desktop/js/a.js'' = Some ''data of k1''"
proof -
  have fetch: "\<forall>n. getAppCustomize ex_env n (app ex_manifest) = Returns (Fulfilled ex_resp)"
    and dl: "\<forall>n k. downloadFile ex_env n k = Returns (Fulfilled (''data of '' @ k))"
    and mk: "\<forall>p. mkdirp_error ex_env p = None"
    and wr: "\<forall>p. writeFile_error ex_env p = None"
    by (simp_all add: ex_env_def)
  have paths: "(destDir ex_options @ sep ex_env @ ''customize-manifest.json'')
         # map (\<lambda>kn. destDir ex_options @ sep ex_env @ ''desktop'' @ sep ex_env @ ''js''
                       @ sep ex_env @ snd kn)
             (uploaded (desktop_js ex_resp))
         @ map (\<lambda>kn. destDir ex_options @ sep ex_env @ ''desktop'' @ sep ex_env @ ''css''
                       @ sep ex_env @ snd kn)
             (uploaded (desktop_css ex_resp))
         @ map (\<lambda>kn. destDir ex_options @ sep ex_env @ ''mobile'' @ sep ex_env @ ''js''
                       @ sep ex_env @ snd kn)
             (uploaded (mobile_js ex_resp))
       = [''d/customize-manifest.json'', ''d/desktop/js/a.js'', ''d/desktop/css/b.css'']"
    by (simp add: ex_options_def ex_resp_def sep_def ex_env_def)
  have apart: "distinct (map (realpath ex_env)
        [''d/customize-manifest.json'', ''d/desktop/js/a.js'', ''d/desktop/css/b.css''])"
    by (simp add: ex_env_def)
  have sched: "rearrangement id" "rearrangement rev"
    by (simp_all add: rearrangement_def)
  have idle: "pending ex_world = []" by (simp add: ex_world_def)
  have eq: "files (run_to_completion ex_env ex_manifest ex_options rev
              (run_to_completion ex_env ex_manifest ex_options id ex_world))
      = files (run_to_completion ex_env ex_manifest ex_options rev ex_world)"
    using fetch dl mk wr apart [folded paths] sched(1) sched(2) sched(2) idle
    by (rule two_runs_leave_the_files_of_one)
  have v: "files (run_to_completion ex_env ex_manifest ex_options rev ex_world)
        ''d/desktop/js/a.js'' = Some ''data of k1''"
    by (simp add: run_to_completion_def runImport_def
      importCustomizeSetting.simps Let_def ex_defs run_defs event_loop_def writeFile_done_def)
  from fetch dl mk wr apart sched idle eq v show ?thesis by blast
qed

end
